theory Spec2Isabelle
  imports Complex_Main "HOL-Library.Sublist"
begin

section \<open>JavaScript values\<close>

text \<open>
  A JavaScript string is a sequence of UTF-16 code units. The ASCII literals of the
  source are written with \<open>lit\<close>; the arrow of the branch marker (U+21B3) and the
  bullet (U+2022) are single code units.
\<close>

type_synonym js_string = "nat list"

definition lit :: "string \<Rightarrow> js_string" where
  "lit s = map of_char s"

text \<open>
  The values \<open>JSON.parse\<close> produces, and \<open>undefined\<close> for a property that is not
  there. An object lists its own properties; a lookup takes the first entry of a key.
\<close>

datatype jsval =
    JUndefined
  | JNull
  | JBool bool
  | JNum real
  | JStr js_string
  | JArr "jsval list"
  | JObj "(js_string \<times> jsval) list"

text \<open>The exceptions of the code: \<open>new Error(msg)\<close>, and the two the platform raises.\<close>

datatype js_exn = Error js_string | TypeError js_string | SyntaxError js_string

fun message :: "js_exn \<Rightarrow> js_string" where
  "message (Error m) = m"
| "message (TypeError m) = m"
| "message (SyntaxError m) = m"

text \<open>Truthiness: \<open>false\<close>, \<open>0\<close>, the empty string, \<open>null\<close> and \<open>undefined\<close> are falsy.\<close>

fun truthy :: "jsval \<Rightarrow> bool" where
  "truthy JUndefined = False"
| "truthy JNull = False"
| "truthy (JBool b) = b"
| "truthy (JNum n) = (n \<noteq> 0)"
| "truthy (JStr s) = (s \<noteq> [])"
| "truthy (JArr _) = True"
| "truthy (JObj _) = True"

text \<open>\<open>a || b\<close>\<close>

definition js_or :: "jsval \<Rightarrow> jsval \<Rightarrow> jsval" where
  "js_or a b = (if truthy a then a else b)"

text \<open>
  \<open>v.k\<close> for the property names the code reads (\<open>success\<close>, \<open>data\<close>, \<open>message\<close>, none
  of them a built-in property of a string, number, boolean or array): reading a
  property of \<open>null\<close> or \<open>undefined\<close> throws a TypeError.
\<close>

fun get_prop :: "jsval \<Rightarrow> js_string \<Rightarrow> js_exn + jsval" where
  "get_prop JUndefined k = Inl (TypeError (lit ''Cannot read properties of undefined''))"
| "get_prop JNull k = Inl (TypeError (lit ''Cannot read properties of null''))"
| "get_prop (JObj kvs) k = Inr (case map_of kvs k of None \<Rightarrow> JUndefined | Some v \<Rightarrow> v)"
| "get_prop _ k = Inr JUndefined"

section \<open>The API service (services/api.js)\<close>

text \<open>
  The network is the environment. \<open>fetch\<close> either rejects (a TypeError with the
  browser's message, \<open>Inl\<close>) or resolves with a response; \<open>response.json()\<close> either
  rejects (a SyntaxError, \<open>Inl\<close>) or resolves with the parsed body.
\<close>

record response =
  ok :: bool
  statusText :: js_string
  json :: "js_string + jsval"

record 'f request =
  url :: js_string
  http_method :: js_string
  body :: "(js_string \<times> 'f) list"

record 'f env =
  VITE_API_URL :: "js_string option"
  fetch :: "'f request \<Rightarrow> js_string + response"

text \<open>\<open>const API_BASE = import.meta.env.VITE_API_URL || 'http://127.0.0.1:8000'\<close>\<close>

definition API_BASE :: "'f env \<Rightarrow> js_string" where
  "API_BASE e =
     (case VITE_API_URL e of
        None \<Rightarrow> lit ''http://127.0.0.1:8000''
      | Some u \<Rightarrow> if u = [] then lit ''http://127.0.0.1:8000'' else u)"

definition analyze_request :: "'f env \<Rightarrow> 'f \<Rightarrow> 'f request" where
  "analyze_request e f =
     \<lparr>url = API_BASE e @ lit ''/analyze'', http_method = lit ''POST'',
      body = [(lit ''file'', f)]\<rparr>"

definition health_request :: "'f env \<Rightarrow> 'f request" where
  "health_request e = \<lparr>url = API_BASE e @ lit ''/health'', http_method = lit ''GET'', body = []\<rparr>"

text \<open>
  \<^verbatim>\<open>
  async analyzeDiagram(file) {
    const formData = new FormData();
    formData.append('file', file);
    const response = await fetch(`${API_BASE}/analyze`, { method: 'POST', body: formData });
    if (!response.ok) {
      throw new Error(`Analysis failed: ${response.statusText}`);
    }
    return response.json();
  }
  \<close>
  The promise the function returns is rejected (\<open>Inl\<close>) or fulfilled (\<open>Inr\<close>).
\<close>

definition analyzeDiagram :: "'f env \<Rightarrow> 'f \<Rightarrow> js_exn + jsval" where
  "analyzeDiagram e f =
     (case fetch e (analyze_request e f) of
        Inl m \<Rightarrow> Inl (TypeError m)
      | Inr r \<Rightarrow>
          if \<not> ok r then Inl (Error (lit ''Analysis failed: '' @ statusText r))
          else (case json r of Inl m \<Rightarrow> Inl (SyntaxError m) | Inr v \<Rightarrow> Inr v))"

text \<open>
  \<^verbatim>\<open>
  async healthCheck() {
    try {
      const response = await fetch(`${API_BASE}/health`);
      return response.ok;
    } catch {
      return false;
    }
  }
  \<close>
  The \<open>try\<close> block is a computation that may throw; the \<open>catch\<close> turns every
  exception into the value \<open>false\<close>.
\<close>

definition healthCheck_try :: "'f env \<Rightarrow> js_exn + bool" where
  "healthCheck_try e =
     (case fetch e (health_request e) of Inl m \<Rightarrow> Inl (TypeError m) | Inr r \<Rightarrow> Inr (ok r))"

definition healthCheck :: "'f env \<Rightarrow> js_exn + bool" where
  "healthCheck e = (case healthCheck_try e of Inl _ \<Rightarrow> Inr False | Inr b \<Rightarrow> Inr b)"

section \<open>The root component (App.jsx)\<close>

text \<open>
  The state of \<open>App\<close>: \<open>analysisResult\<close> starts as \<open>null\<close>, and \<open>GraphView\<close> is shown only
  while it is truthy.
\<close>

record app_state =
  analysisResult :: jsval
  apiStatus :: js_string
  errorMessage :: js_string

definition handleUploadSuccess :: "jsval \<Rightarrow> app_state \<Rightarrow> app_state" where
  "handleUploadSuccess d s = s\<lparr>analysisResult := d, errorMessage := lit ''''\<rparr>"

definition handleClearResults :: "app_state \<Rightarrow> app_state" where
  "handleClearResults s = s\<lparr>analysisResult := JNull\<rparr>"

definition checkApiHealth :: "'f env \<Rightarrow> app_state \<Rightarrow> app_state" where
  "checkApiHealth e s =
     (case healthCheck e of
        Inl _ \<Rightarrow> s\<lparr>apiStatus := lit ''disconnected''\<rparr>
      | Inr healthy \<Rightarrow> s\<lparr>apiStatus := (if healthy then lit ''connected'' else lit ''disconnected'')\<rparr>)"

section \<open>The upload component (Upload.jsx)\<close>

text \<open>The state variable \<open>file\<close> is \<open>selected_file\<close> here (\<open>file\<close> is reserved).\<close>

record 'f upload_state =
  selected_file :: "'f option"
  loading :: bool
  error :: jsval
  preview :: js_string

text \<open>
  \<^verbatim>\<open>
  const handleUpload = async () => {
    if (!file) { setError('Please select a file'); return; }
    setLoading(true);
    setError('');
    try {
      const result = await api.analyzeDiagram(file);
      if (result.success) {
        onUploadSuccess(result.data);
      } else {
        setError(result.message || 'Upload failed');
      }
    } catch (err) {
      setError(err.message || 'An error occurred during analysis');
    } finally {
      setLoading(false);
    }
  };
  \<close>
  The state is the pair of the component's own state and the parent's, which only the
  callback \<open>onUploadSuccess\<close> touches. The handler runs in two parts: up to the \<open>await\<close>,
  and from the moment the promise of \<open>analyzeDiagram\<close> settles, on the state as it is
  then. The \<open>try\<close> block returns the pair it reached or the exception thrown; no state
  is written before a point that can throw.
\<close>

definition handleUpload_try ::
  "js_exn + jsval \<Rightarrow> (jsval \<Rightarrow> 'p \<Rightarrow> 'p) \<Rightarrow> 'f upload_state \<times> 'p \<Rightarrow> js_exn + ('f upload_state \<times> 'p)"
where
  "handleUpload_try settled onUploadSuccess st =
     (case settled of
        Inl x \<Rightarrow> Inl x
      | Inr result \<Rightarrow>
          (case get_prop result (lit ''success'') of
             Inl x \<Rightarrow> Inl x
           | Inr s \<Rightarrow>
               if truthy s then
                 (case get_prop result (lit ''data'') of
                    Inl x \<Rightarrow> Inl x
                  | Inr d \<Rightarrow> Inr (fst st, onUploadSuccess d (snd st)))
               else
                 (case get_prop result (lit ''message'') of
                    Inl x \<Rightarrow> Inl x
                  | Inr m \<Rightarrow>
                      Inr ((fst st)\<lparr>error := js_or m (JStr (lit ''Upload failed''))\<rparr>, snd st))))"

text \<open>From the settled promise on: \<open>try\<close>, \<open>catch\<close>, \<open>finally\<close>.\<close>

definition handleUpload_settled ::
  "js_exn + jsval \<Rightarrow> (jsval \<Rightarrow> 'p \<Rightarrow> 'p) \<Rightarrow> 'f upload_state \<times> 'p \<Rightarrow> 'f upload_state \<times> 'p"
where
  "handleUpload_settled settled onUploadSuccess st =
     (let st2 = (case handleUpload_try settled onUploadSuccess st of
                   Inl err \<Rightarrow>
                     ((fst st)\<lparr>error := js_or (JStr (message err))
                                  (JStr (lit ''An error occurred during analysis''))\<rparr>, snd st)
                 | Inr st' \<Rightarrow> st')
      in ((fst st2)\<lparr>loading := False\<rparr>, snd st2))"

text \<open>The whole handler, when nothing else writes the state while the request is out.\<close>

definition handleUpload ::
  "'f env \<Rightarrow> (jsval \<Rightarrow> 'p \<Rightarrow> 'p) \<Rightarrow> 'f upload_state \<times> 'p \<Rightarrow> 'f upload_state \<times> 'p"
where
  "handleUpload e onUploadSuccess st =
     (case selected_file (fst st) of
        None \<Rightarrow> ((fst st)\<lparr>error := JStr (lit ''Please select a file'')\<rparr>, snd st)
      | Some f \<Rightarrow>
          handleUpload_settled (analyzeDiagram e f) onUploadSuccess
            ((fst st)\<lparr>loading := True, error := JStr (lit '''')\<rparr>, snd st))"

section \<open>String operations the view uses\<close>

text \<open>\<open>s.startsWith(p)\<close> and \<open>s.includes(p)\<close>.\<close>

definition js_startsWith :: "js_string \<Rightarrow> js_string \<Rightarrow> bool" where
  "js_startsWith s p = (take (length p) s = p)"

fun js_includes :: "js_string \<Rightarrow> js_string \<Rightarrow> bool" where
  "js_includes [] p = (p = [])"
| "js_includes (x # xs) p = (js_startsWith (x # xs) p \<or> js_includes xs p)"

text \<open>\<open>s.split(c)\<close> for a separator of one code unit: never empty, \<open>''.split(':')\<close> is \<open>['']\<close>.\<close>

fun js_split :: "js_string \<Rightarrow> nat \<Rightarrow> js_string list" where
  "js_split [] c = [[]]"
| "js_split (x # xs) c =
     (if x = c then [] # js_split xs c
      else (case js_split xs c of [] \<Rightarrow> [[x]] | seg # rest \<Rightarrow> (x # seg) # rest))"

text \<open>\<open>segs.join(c)\<close>\<close>

fun js_join :: "js_string list \<Rightarrow> nat \<Rightarrow> js_string" where
  "js_join [] c = []"
| "js_join [seg] c = seg"
| "js_join (seg # segs) c = seg @ c # js_join segs c"

text \<open>\<open>s.trim()\<close>: the white space and line terminators of ECMAScript.\<close>

definition js_whitespace :: "nat \<Rightarrow> bool" where
  "js_whitespace c =
     (c \<in> {9, 10, 11, 12, 13, 32, 160, 5760, 8232, 8233, 8239, 8287, 12288, 65279}
      \<or> (8192 \<le> c \<and> c \<le> 8202))"

definition js_trim :: "js_string \<Rightarrow> js_string" where
  "js_trim s = rev (dropWhile js_whitespace (rev (dropWhile js_whitespace s)))"

definition colon :: nat where
  "colon = 58"

text \<open>The marker of a branch line, U+21B3, and the bullet, U+2022.\<close>

definition branch_arrow :: js_string where
  "branch_arrow = [8627]"

definition bullet :: js_string where
  "bullet = [8226]"

section \<open>The result view (GraphView.jsx)\<close>

text \<open>
  What a render returns: elements with a tag, a class name and children; text; the
  value of an expression in braces; the element \<open>highlightText\<close> returns for a text
  (its inner HTML is not modelled); a component of a library.
\<close>

datatype html =
    Elem string js_string "html list"
  | Text js_string
  | Expr jsval
  | HighlightText js_string
  | External string

datatype view_mode = GraphMode | StepsMode | NodesMode | EdgesMode | RawMode

text \<open>
  The analysis result as the view reads it: \<open>data.nodes\<close>, \<open>data.edges\<close>,
  \<open>data.logical_graph?.narrative\<close> and \<open>data.graph?.metadata\<close>, each possibly missing.
  The elements of the three arrays are any JSON values; the violations are strings.
\<close>

record metadata_json =
  node_count :: jsval
  node_reduction_pct :: jsval
  sanity_violations :: "js_string list option"

record analysis_data =
  nodes :: "jsval list option"
  edges :: "jsval list option"
  logical_graph_narrative :: "jsval list option"
  graph_metadata :: "metadata_json option"

text \<open>\<open>const nodes = data.nodes || []\<close> and \<open>const edges = data.edges || []\<close>\<close>

definition nodes_of :: "analysis_data \<Rightarrow> jsval list" where
  "nodes_of d = (case nodes d of None \<Rightarrow> [] | Some ns \<Rightarrow> ns)"

definition edges_of :: "analysis_data \<Rightarrow> jsval list" where
  "edges_of d = (case edges d of None \<Rightarrow> [] | Some es \<Rightarrow> es)"

text \<open>\<open>const narrative = data.logical_graph?.narrative || []\<close>\<close>

definition narrative_of :: "analysis_data \<Rightarrow> jsval list" where
  "narrative_of d = (case logical_graph_narrative d of None \<Rightarrow> [] | Some n \<Rightarrow> n)"

text \<open>\<open>const graphMetadata = data.graph?.metadata || {}\<close>\<close>

definition graphMetadata_of :: "analysis_data \<Rightarrow> metadata_json" where
  "graphMetadata_of d =
     (case graph_metadata d of
        None \<Rightarrow> \<lparr>node_count = JUndefined, node_reduction_pct = JUndefined, sanity_violations = None\<rparr>
      | Some m \<Rightarrow> m)"

text \<open>\<open>xs.map(f)\<close> with a callback that may throw: the first exception ends the map.\<close>

fun map_throwing :: "('a \<Rightarrow> js_exn + 'b) \<Rightarrow> 'a list \<Rightarrow> js_exn + 'b list" where
  "map_throwing f [] = Inr []"
| "map_throwing f (x # xs) =
     (case f x of
        Inl e \<Rightarrow> Inl e
      | Inr y \<Rightarrow> (case map_throwing f xs of Inl e \<Rightarrow> Inl e | Inr ys \<Rightarrow> Inr (y # ys)))"

text \<open>
  \<^verbatim>\<open>
  const graphData = {
    nodes: nodes.map(node => ({ id: node.id, name: node.id,
                                val: node.area ? Math.sqrt(node.area) / 5 : 5, ...node })),
    links: edges.map(edge => ({ source: edge.source, target: edge.target, ...edge }))
  };
  \<close>
  This runs on every render, whatever the tab. Reading \<open>node.id\<close> or \<open>edge.source\<close> of a
  \<open>null\<close> element throws, and the render with it. An entry is kept here as the values
  read together with the element that is spread; the scaled size \<open>val\<close>, a floating-point
  square root that cannot throw, is left out. Only the force graph of the Graph tab
  receives \<open>graphData\<close>.
\<close>

type_synonym graph_data = "(jsval \<times> jsval) list \<times> (jsval \<times> jsval \<times> jsval) list"

definition graphData_node :: "jsval \<Rightarrow> js_exn + (jsval \<times> jsval)" where
  "graphData_node node =
     (case get_prop node (lit ''id'') of Inl x \<Rightarrow> Inl x | Inr i \<Rightarrow> Inr (i, node))"

definition graphData_link :: "jsval \<Rightarrow> js_exn + (jsval \<times> jsval \<times> jsval)" where
  "graphData_link e =
     (case get_prop e (lit ''source'') of
        Inl x \<Rightarrow> Inl x
      | Inr s \<Rightarrow> (case get_prop e (lit ''target'') of Inl x \<Rightarrow> Inl x | Inr t \<Rightarrow> Inr (s, t, e)))"

definition graphData :: "jsval list \<Rightarrow> jsval list \<Rightarrow> js_exn + graph_data" where
  "graphData ns es =
     (case map_throwing graphData_node ns of
        Inl x \<Rightarrow> Inl x
      | Inr gn \<Rightarrow> (case map_throwing graphData_link es of Inl x \<Rightarrow> Inl x | Inr gl \<Rightarrow> Inr (gn, gl)))"

text \<open>
  \<^verbatim>\<open>
  <div key={idx} className={`narrative-item ${step.includes(ARROW) ? 'indent-branch' : ''}`}>
    <span className="step-marker">{step.startsWith('Step') ? step.split(':')[0] : BULLET}</span>
    <span className="step-content">
      {highlightText(step.includes(':') ? step.split(':').slice(1).join(':').trim() : step)}
    </span>
  </div>
  \<close>
  where ARROW is the one-character string U+21B3 and BULLET is U+2022 in the source.
\<close>

definition item_className :: "js_string \<Rightarrow> js_string" where
  "item_className step =
     lit ''narrative-item '' @ (if js_includes step branch_arrow then lit ''indent-branch'' else lit '''')"

definition step_marker :: "js_string \<Rightarrow> js_string" where
  "step_marker step =
     (if js_startsWith step (lit ''Step'')
      then (case js_split step colon of [] \<Rightarrow> [] | seg # _ \<Rightarrow> seg)
      else bullet)"

definition step_content :: "js_string \<Rightarrow> js_string" where
  "step_content step =
     (if js_includes step [colon] then js_trim (js_join (drop 1 (js_split step colon)) colon)
      else step)"

definition narrative_item :: "js_string \<Rightarrow> html" where
  "narrative_item step =
     Elem ''div'' (item_className step)
       [Elem ''span'' (lit ''step-marker'') [Text (step_marker step)],
        Elem ''span'' (lit ''step-content'') [HighlightText (step_content step)]]"

text \<open>
  The callback of \<open>narrative.map\<close>: for a step that is a string, the item above. A step
  that is no string has no \<open>includes\<close> (a number, a boolean, an object, \<open>null\<close>) or no
  \<open>startsWith\<close> (an array), and the call throws a TypeError.
\<close>

fun render_step :: "jsval \<Rightarrow> js_exn + html" where
  "render_step (JStr step) = Inr (narrative_item step)"
| "render_step (JArr _) = Inl (TypeError (lit ''step.startsWith is not a function''))"
| "render_step JNull = Inl (TypeError (lit ''Cannot read properties of null''))"
| "render_step JUndefined = Inl (TypeError (lit ''Cannot read properties of undefined''))"
| "render_step _ = Inl (TypeError (lit ''step.includes is not a function''))"

text \<open>
  \<^verbatim>\<open>
  {narrative.length === 0 ? (
    <p className="no-items">No logic could be interpreted from this graph.</p>
  ) : (
    <div className="narrative-list"> {narrative.map((step, idx) => ( ... ))} </div>
  )}
  \<close>
\<close>

definition no_logic_message :: html where
  "no_logic_message =
     Elem ''p'' (lit ''no-items'') [Text (lit ''No logic could be interpreted from this graph.'')]"

definition steps_header :: html where
  "steps_header =
     Elem ''div'' (lit ''section-header-flex'')
       [Elem ''h3'' [] [Text (lit ''Intelligent Workflow Narrative'')],
        Elem ''button'' (lit ''text-copy-btn'') [Text (lit ''Copy to Clipboard'')]]"

definition steps_section :: "jsval list \<Rightarrow> js_exn + html" where
  "steps_section narrative =
     (if length narrative = 0
      then Inr (Elem ''div'' (lit ''steps-section'') [steps_header, no_logic_message])
      else (case map_throwing render_step narrative of
              Inl x \<Rightarrow> Inl x
            | Inr items \<Rightarrow>
                Inr (Elem ''div'' (lit ''steps-section'')
                       [steps_header, Elem ''div'' (lit ''narrative-list'') items])))"

text \<open>
  \<^verbatim>\<open>
  {graphMetadata.sanity_violations && graphMetadata.sanity_violations.length > 0 && (
    <div className="sanity-check-area">
      <h5 className="warning-title">(warning sign) Logic Sanity Warnings</h5>
      <ul className="violations-list">
        {graphMetadata.sanity_violations.map((v, i) => (<li key={i}>{v}</li>))}
      </ul>
    </div>
  )}
  \<close>
  The title starts with the warning sign, U+26A0 U+FE0F.
\<close>

definition sanity_check_area :: "js_string list \<Rightarrow> html" where
  "sanity_check_area vs =
     Elem ''div'' (lit ''sanity-check-area'')
       [Elem ''h5'' (lit ''warning-title'') [Text ([9888, 65039] @ lit '' Logic Sanity Warnings'')],
        Elem ''ul'' (lit ''violations-list'') (map (\<lambda>v. Elem ''li'' [] [Text v]) vs)]"

definition sanity_part :: "metadata_json \<Rightarrow> html list" where
  "sanity_part m =
     (case sanity_violations m of
        None \<Rightarrow> []
      | Some vs \<Rightarrow> if length vs > 0 then [sanity_check_area vs] else [])"

definition metadata_block :: "metadata_json \<Rightarrow> html" where
  "metadata_block m =
     Elem ''div'' (lit ''graph-metadata'')
       ([Elem ''div'' (lit ''metadata-header'')
           [Elem ''h4'' [] [Text (lit ''Accuracy Metrics & Logic'')],
            Elem ''span'' (lit ''accuracy-badge'') [Text (lit ''High Improvement'')]],
         Elem ''div'' (lit ''metrics-grid'')
           [Elem ''div'' (lit ''metric-card'')
              [Elem ''span'' (lit ''metric-label'') [Text (lit ''Nodes Detected'')],
               Elem ''span'' (lit ''metric-value'') [Expr (node_count m)]],
            Elem ''div'' (lit ''metric-card highlight'')
              [Elem ''span'' (lit ''metric-label'') [Text (lit ''Noise Reduction'')],
               Elem ''span'' (lit ''metric-value'') [Expr (node_reduction_pct m), Text (lit ''%'')]]]]
        @ sanity_part m)"

text \<open>
  The buttons that choose the view, and the page. The Graph, Nodes, Edges and Raw
  tabs show the same data in other forms; what they render for the data and the graph
  data, or the exception their render throws, is the parameter \<open>tabs\<close>. The metadata
  block stands outside the choice of the tab. An exception anywhere in the render
  leaves no page.
\<close>

definition control_btn :: "view_mode \<Rightarrow> view_mode \<Rightarrow> html list \<Rightarrow> html" where
  "control_btn viewMode m caption =
     Elem ''button'' (lit ''control-btn '' @ (if viewMode = m then lit ''active'' else lit ''''))
       caption"

definition view_controls :: "analysis_data \<Rightarrow> view_mode \<Rightarrow> html" where
  "view_controls d viewMode =
     Elem ''div'' (lit ''view-controls'')
       [control_btn viewMode GraphMode [Text (lit ''Graph Visual'')],
        control_btn viewMode StepsMode [Text (lit ''Logical Steps'')],
        control_btn viewMode NodesMode
          [Text (lit ''Nodes (''), Expr (JNum (real (length (nodes_of d)))), Text (lit '')'')],
        control_btn viewMode EdgesMode
          [Text (lit ''Edges (''), Expr (JNum (real (length (edges_of d)))), Text (lit '')'')],
        control_btn viewMode RawMode [Text (lit ''Raw Data'')]]"

definition graph_content ::
  "(analysis_data \<Rightarrow> graph_data \<Rightarrow> view_mode \<Rightarrow> js_exn + html) \<Rightarrow> graph_data \<Rightarrow> analysis_data
     \<Rightarrow> view_mode \<Rightarrow> js_exn + html" where
  "graph_content tabs gd d viewMode =
     (case (if viewMode = StepsMode then steps_section (narrative_of d) else tabs d gd viewMode) of
        Inl x \<Rightarrow> Inl x
      | Inr t \<Rightarrow> Inr (Elem ''div'' (lit ''graph-content'') [t]))"

definition GraphView ::
  "(analysis_data \<Rightarrow> graph_data \<Rightarrow> view_mode \<Rightarrow> js_exn + html) \<Rightarrow> analysis_data option
     \<Rightarrow> view_mode \<Rightarrow> js_exn + html" where
  "GraphView tabs data viewMode =
     (case data of
        None \<Rightarrow>
          Inr (Elem ''div'' (lit ''graph-view'')
                 [Elem ''p'' (lit ''no-data'') [Text (lit ''No data to display. Upload an image first.'')]])
      | Some d \<Rightarrow>
          (case graphData (nodes_of d) (edges_of d) of
             Inl x \<Rightarrow> Inl x
           | Inr gd \<Rightarrow>
               (case graph_content tabs gd d viewMode of
                  Inl x \<Rightarrow> Inl x
                | Inr content \<Rightarrow>
                    Inr (Elem ''div'' (lit ''graph-view-container'')
                           [view_controls d viewMode, content,
                            metadata_block (graphMetadata_of d)]))))"

text \<open>The elements a page holds, itself included, in document order.\<close>

fun elements :: "html \<Rightarrow> html list" where
  "elements (Elem t c hs) = Elem t c hs # concat (map elements hs)"
| "elements h = [h]"

subsection \<open>Example inputs of the view\<close>

text \<open>
  An analysis result as the backend returns it, with a narrative of two steps and a
  branch line and with two sanity warnings; and tabs that render a library component.
\<close>

definition sample_data :: analysis_data where
  "sample_data =
     \<lparr>nodes = Some [JObj [(lit ''id'', JStr (lit ''n0''))], JObj [(lit ''id'', JStr (lit ''n1''))]],
      edges = Some [JObj [(lit ''source'', JStr (lit ''n0'')), (lit ''target'', JStr (lit ''n1''))]],
      logical_graph_narrative =
        Some [JStr (lit ''Step 1: Start''), JStr (lit ''Step 2: Decision Approved?''),
              JStr ([8627] @ lit '' If Yes: End'')],
      graph_metadata =
        Some \<lparr>node_count = JNum 2, node_reduction_pct = JNum 50,
              sanity_violations =
                Some [lit ''Decision node n1 has fewer than 2 branches'', lit ''No end node'']\<rparr>\<rparr>"

definition sample_tabs :: "analysis_data \<Rightarrow> graph_data \<Rightarrow> view_mode \<Rightarrow> js_exn + html" where
  "sample_tabs d gd viewMode = Inr (External ''tab'')"

section \<open>The analysis pipeline, from the specification\<close>

text \<open>
  The backend that detects, classifies and narrates is not among the sources (only the
  frontend is). Its stages are modelled here from the specification's sections 3 and 4.
  Text is a list of code points, as \<open>js_string\<close> is, so that a narrative can be handed
  to the view as it is.
\<close>

subsection \<open>Data model\<close>

text \<open>
  Modelled from the spec: the shape categories and the semantic classes of section 3,
  and a bounding box, given by its corners.
\<close>

datatype shape_type = Circle | Rectangle | Diamond | Polygon | UnknownShape

datatype semantic_class = CStart | CEnd | CProcess | CDecision | CData | CUnknown

record bbox =
  x_min :: real
  y_min :: real
  x_max :: real
  y_max :: real

text \<open>
  Modelled from the spec: the RawShape of the external vision pass, with the fields the
  merger reads (shape category, bounding box, area, detector confidence).
\<close>

record raw_shape =
  kind :: shape_type
  box :: bbox
  shape_area :: real
  conf :: real

text \<open>Modelled from the spec: the LogicalNode and the Edge of section 3.\<close>

record logical_node =
  node_id :: nat
  shape :: shape_type
  node_class :: semantic_class
  geometry :: bbox
  center :: "real \<times> real"
  area :: real
  confidence :: real
  labels :: "js_string list"

record edge =
  source :: nat
  target :: nat
  edge_label :: "js_string option"

record graph =
  g_nodes :: "logical_node list"
  g_edges :: "edge list"

text \<open>
  Modelled from the spec: the configuration object threaded through the components. The
  guard and noise thresholds default to 0.4 and 500; the overlap fraction and the
  distance factor of proximal merging are configured, with no default given.
\<close>

record config =
  guard_threshold :: real
  noise_threshold :: real
  overlap_fraction :: real
  distance_factor :: real

definition default_config :: "real \<Rightarrow> real \<Rightarrow> config" where
  "default_config ov df =
     \<lparr>guard_threshold = 0.4, noise_threshold = 500, overlap_fraction = ov, distance_factor = df\<rparr>"

subsection \<open>Shape Detector and Merger (section 4.1)\<close>

text \<open>
  Modelled from the spec: the measures of a bounding box that the merge rules speak of:
  its area, its center, its diagonal (squared), the area two boxes share, and the
  distance of two centers (squared).
\<close>

definition bbox_area :: "bbox \<Rightarrow> real" where
  "bbox_area b = (x_max b - x_min b) * (y_max b - y_min b)"

definition bbox_center :: "bbox \<Rightarrow> real \<times> real" where
  "bbox_center b = ((x_min b + x_max b) / 2, (y_min b + y_max b) / 2)"

definition diagonal_sq :: "bbox \<Rightarrow> real" where
  "diagonal_sq b = (x_max b - x_min b)\<^sup>2 + (y_max b - y_min b)\<^sup>2"

definition intersection_area :: "bbox \<Rightarrow> bbox \<Rightarrow> real" where
  "intersection_area a b =
     max 0 (min (x_max a) (x_max b) - max (x_min a) (x_min b))
     * max 0 (min (y_max a) (y_max b) - max (y_min a) (y_min b))"

definition center_dist_sq :: "bbox \<Rightarrow> bbox \<Rightarrow> real" where
  "center_dist_sq a b =
     (fst (bbox_center a) - fst (bbox_center b))\<^sup>2 + (snd (bbox_center a) - snd (bbox_center b))\<^sup>2"

text \<open>
  Modelled from the spec: the Proximal Merging candidates of section 4.1. Two shapes
  are candidates for merge if their bounding boxes overlap beyond the configured
  fraction (here: of the smaller box), or their centers lie within a distance
  proportional to the smaller shape's diagonal (compared as squares, the distance
  factor being non-negative).
\<close>

definition mergeable :: "config \<Rightarrow> raw_shape \<Rightarrow> raw_shape \<Rightarrow> bool" where
  "mergeable c a b =
     (intersection_area (box a) (box b)
        > overlap_fraction c * min (bbox_area (box a)) (bbox_area (box b))
      \<or> center_dist_sq (box a) (box b)
        \<le> (distance_factor c)\<^sup>2 * min (diagonal_sq (box a)) (diagonal_sq (box b)))"

text \<open>
  Modelled from the spec: the connected components of the mergeable relation (what the
  union-find of section 4.1 computes), built shape by shape. A shape joins every
  component it is mergeable with, and those components become one, at the place of
  the first; components therefore stay in the order of their first-seen shape.
\<close>

definition touches :: "(raw_shape \<Rightarrow> raw_shape \<Rightarrow> bool) \<Rightarrow> raw_shape \<Rightarrow> raw_shape list \<Rightarrow> bool" where
  "touches m s c = (\<exists>t \<in> set c. m s t)"

fun merge_into ::
  "(raw_shape \<Rightarrow> raw_shape \<Rightarrow> bool) \<Rightarrow> raw_shape \<Rightarrow> raw_shape list list \<Rightarrow> raw_shape list list"
where
  "merge_into m s [] = [[s]]"
| "merge_into m s (c # cs) =
     (if touches m s c
      then (c @ concat (filter (touches m s) cs) @ [s]) # filter (\<lambda>d. \<not> touches m s d) cs
      else c # merge_into m s cs)"

definition components :: "(raw_shape \<Rightarrow> raw_shape \<Rightarrow> bool) \<Rightarrow> raw_shape list \<Rightarrow> raw_shape list list" where
  "components m shapes = fold (merge_into m) shapes []"

text \<open>
  Modelled from the spec: how a component collapses. Merged geometry is the union
  bounding region, merged confidence the maximum of the contributing confidences,
  merged type the type of the highest-confidence contributor, ties broken by larger
  area. A component of one shape is that shape.
\<close>

fun union_box :: "bbox \<Rightarrow> raw_shape list \<Rightarrow> bbox" where
  "union_box b [] = b"
| "union_box b (s # ss) =
     union_box \<lparr>x_min = min (x_min b) (x_min (box s)), y_min = min (y_min b) (y_min (box s)),
                x_max = max (x_max b) (x_max (box s)), y_max = max (y_max b) (y_max (box s))\<rparr> ss"

fun max_conf :: "real \<Rightarrow> raw_shape list \<Rightarrow> real" where
  "max_conf m [] = m"
| "max_conf m (s # ss) = max_conf (max m (conf s)) ss"

fun best_contributor :: "raw_shape \<Rightarrow> raw_shape list \<Rightarrow> raw_shape" where
  "best_contributor b [] = b"
| "best_contributor b (s # ss) =
     best_contributor
       (if conf s > conf b \<or> (conf s = conf b \<and> shape_area s > shape_area b) then s else b) ss"

fun collapse :: "raw_shape list \<Rightarrow> raw_shape option" where
  "collapse [] = None"
| "collapse [s] = Some s"
| "collapse (s # ss) =
     Some \<lparr>kind = kind (best_contributor s ss), box = union_box (box s) ss,
           shape_area = bbox_area (union_box (box s) ss), conf = max_conf (conf s) ss\<rparr>"

definition merge_step :: "config \<Rightarrow> raw_shape list \<Rightarrow> raw_shape list" where
  "merge_step c shapes = List.map_filter collapse (components (mergeable c) shapes)"

text \<open>
  Modelled from the spec: the whole stage. Confidence Guard before merging, ids by the
  first-seen order of the components, Noise Flush after merging; an empty input gives
  an empty node sequence.
\<close>

definition to_node :: "nat \<times> raw_shape \<Rightarrow> logical_node" where
  "to_node p =
     \<lparr>node_id = fst p, shape = kind (snd p), node_class = CUnknown, geometry = box (snd p),
      center = bbox_center (box (snd p)), area = shape_area (snd p), confidence = conf (snd p),
      labels = []\<rparr>"

definition confidence_guard :: "config \<Rightarrow> raw_shape list \<Rightarrow> raw_shape list" where
  "confidence_guard c shapes = filter (\<lambda>s. \<not> conf s < guard_threshold c) shapes"

definition noise_flush :: "config \<Rightarrow> logical_node list \<Rightarrow> logical_node list" where
  "noise_flush c ns = filter (\<lambda>n. \<not> area n < noise_threshold c) ns"

definition detect_nodes :: "config \<Rightarrow> raw_shape list \<Rightarrow> logical_node list" where
  "detect_nodes c shapes =
     noise_flush c (map to_node (enumerate 0 (merge_step c (confidence_guard c shapes))))"

subsection \<open>Graph Builder (section 4.4)\<close>

text \<open>
  Modelled from the spec: \<open>node_reduction_pct = (raw_shape_count - final_node_count) /
  raw_shape_count * 100\<close>, clamped to [0,100]; 0 if \<open>raw_shape_count\<close> is 0.
\<close>

definition node_reduction_pct :: "nat \<Rightarrow> nat \<Rightarrow> real" where
  "node_reduction_pct raw_shape_count final_node_count =
     (if raw_shape_count = 0 then 0
      else max 0 (min 100
             ((real raw_shape_count - real final_node_count) / real raw_shape_count * 100)))"

subsection \<open>Semantic Classifier: edge polarity (section 4.3)\<close>

text \<open>
  Modelled from the spec: the polarity of an edge label, from the closed vocabulary
  Yes, No, True, False (compared without regard to the case of the letters A to Z);
  anything else, and no label, ranks with the unlabeled. The priority is Yes/True
  before No/False before unlabeled.
\<close>

datatype polarity = Affirmative | Negative | Unlabeled

definition to_lower :: "nat \<Rightarrow> nat" where
  "to_lower c = (if 65 \<le> c \<and> c \<le> 90 then c + 32 else c)"

definition classify_polarity :: "js_string option \<Rightarrow> polarity" where
  "classify_polarity l =
     (case l of
        None \<Rightarrow> Unlabeled
      | Some t \<Rightarrow>
          if map to_lower t \<in> {lit ''yes'', lit ''true''} then Affirmative
          else if map to_lower t \<in> {lit ''no'', lit ''false''} then Negative
          else Unlabeled)"

fun polarity_rank :: "polarity \<Rightarrow> nat" where
  "polarity_rank Affirmative = 0"
| "polarity_rank Negative = 1"
| "polarity_rank Unlabeled = 2"

subsection \<open>Narrative Generator (section 4.5)\<close>

text \<open>
  Modelled from the spec: the phrase of a step and the text of a branch are not given by
  the specification; they are the parameters \<open>phrase\<close> and \<open>branch_text\<close>. A linear
  step is \<open>Step n: phrase\<close>; a branch line is the arrow marker and the branch's text.
\<close>

record wording =
  phrase :: "logical_node \<Rightarrow> js_string"
  branch_text :: "edge \<Rightarrow> js_string"

fun decimal :: "nat \<Rightarrow> js_string" where
  "decimal n = (if n < 10 then [48 + n] else decimal (n div 10) @ [48 + n mod 10])"

declare decimal.simps [simp del]

definition step_line :: "wording \<Rightarrow> nat \<Rightarrow> logical_node \<Rightarrow> js_string" where
  "step_line w n v = lit ''Step '' @ decimal n @ lit '': '' @ phrase w v"

definition branch_line :: "wording \<Rightarrow> edge \<Rightarrow> js_string" where
  "branch_line w e = branch_arrow @ lit '' '' @ branch_text w e"

text \<open>
  Modelled from the spec: the outgoing edges of a node in the fixed order, Yes/True
  before No/False before unlabeled (a stable sort: edges of one polarity keep the
  order of the graph).
\<close>

definition out_edges :: "graph \<Rightarrow> nat \<Rightarrow> edge list" where
  "out_edges g v = filter (\<lambda>e. source e = v) (g_edges g)"

definition ordered_out_edges :: "graph \<Rightarrow> nat \<Rightarrow> edge list" where
  "ordered_out_edges g v =
     sort_key (\<lambda>e. polarity_rank (classify_polarity (edge_label e))) (out_edges g v)"

text \<open>
  Modelled from the spec: the breadth-first walk, with an explicit queue and visited
  set. A node is emitted once, with the number of its step; a node already emitted is
  not expanded again, and an id that names no node of the graph is skipped (the Graph
  Builder rejects such an edge before the narrative is made).
\<close>

definition find_node :: "graph \<Rightarrow> nat \<Rightarrow> logical_node option" where
  "find_node g v = find (\<lambda>n. node_id n = v) (g_nodes g)"

function traverse :: "graph \<Rightarrow> nat list \<Rightarrow> nat list \<Rightarrow> nat \<Rightarrow> (nat \<times> logical_node) list" where
  "traverse g [] visited n = []"
| "traverse g (v # queue) visited n =
     (if v \<in> set visited then traverse g queue visited n
      else (case find_node g v of
              None \<Rightarrow> traverse g queue visited n
            | Some nd \<Rightarrow>
                (n, nd) # traverse g (queue @ map target (ordered_out_edges g v)) (v # visited) (n + 1)))"
  by pat_completeness auto
termination
proof (relation "measures [\<lambda>(g, q, vis, n). card (node_id ` set (g_nodes g) - set vis),
                           \<lambda>(g, q, vis, n). length q]")
  show "wf (measures [\<lambda>(g, q, vis, n). card (node_id ` set (g_nodes g) - set vis),
                      \<lambda>(g, q, vis, n). length q])"
    by simp
next
  fix g :: graph and v :: nat and queue visited :: "nat list" and n :: nat
  assume "v \<in> set visited"
  then show "((g, queue, visited, n), (g, v # queue, visited, n))
      \<in> measures [\<lambda>(g, q, vis, n). card (node_id ` set (g_nodes g) - set vis),
                   \<lambda>(g, q, vis, n). length q]"
    by simp
next
  fix g :: graph and v :: nat and queue visited :: "nat list" and n :: nat
  assume "v \<notin> set visited" "find_node g v = None"
  then show "((g, queue, visited, n), (g, v # queue, visited, n))
      \<in> measures [\<lambda>(g, q, vis, n). card (node_id ` set (g_nodes g) - set vis),
                   \<lambda>(g, q, vis, n). length q]"
    by simp
next
  fix g :: graph and v :: nat and queue visited :: "nat list" and n :: nat and nd :: logical_node
  assume nv: "v \<notin> set visited" and f: "find_node g v = Some nd"
  have "v \<in> node_id ` set (g_nodes g)"
    using f unfolding find_node_def by (auto simp: find_Some_iff)
  then have "card (node_id ` set (g_nodes g) - set (v # visited))
      < card (node_id ` set (g_nodes g) - set visited)"
    using nv by (intro psubset_card_mono) auto
  then show "((g, queue @ map target (ordered_out_edges g v), v # visited, n + 1),
              (g, v # queue, visited, n))
      \<in> measures [\<lambda>(g, q, vis, n). card (node_id ` set (g_nodes g) - set vis),
                   \<lambda>(g, q, vis, n). length q]"
    by simp
qed

text \<open>
  Modelled from the spec: what one emitted node contributes. A decision node's step is
  followed by one branch line for each outgoing edge, in the fixed order (section 8: a
  decision node with the two edges Yes and No gives one linear step followed by two
  branch lines); every other node contributes its step alone.
\<close>

definition node_lines :: "wording \<Rightarrow> graph \<Rightarrow> nat \<times> logical_node \<Rightarrow> js_string list" where
  "node_lines w g p =
     step_line w (fst p) (snd p)
     # (if node_class (snd p) = CDecision
        then map (branch_line w) (ordered_out_edges g (node_id (snd p)))
        else [])"

text \<open>
  Modelled from the spec: the start node is the first, by node id, of the nodes
  classified \<open>start\<close>; with none, the narrative is empty.
\<close>

fun least_id :: "logical_node \<Rightarrow> logical_node list \<Rightarrow> logical_node" where
  "least_id b [] = b"
| "least_id b (v # vs) = least_id (if node_id v < node_id b then v else b) vs"

definition start_node :: "graph \<Rightarrow> logical_node option" where
  "start_node g =
     (case filter (\<lambda>v. node_class v = CStart) (g_nodes g) of
        [] \<Rightarrow> None
      | s # ss \<Rightarrow> Some (least_id s ss))"

definition emitted :: "graph \<Rightarrow> (nat \<times> logical_node) list" where
  "emitted g = (case start_node g of None \<Rightarrow> [] | Some s \<Rightarrow> traverse g [node_id s] [] 1)"

definition generate_narrative :: "wording \<Rightarrow> graph \<Rightarrow> js_string list" where
  "generate_narrative w g = concat (map (node_lines w g) (emitted g))"

subsection \<open>Example inputs\<close>

text \<open>
  A wording that takes a node's labels as its phrase and an edge's label as the branch
  text, and a graph with a decision node and a cycle, for the examples below.
\<close>

definition label_wording :: wording where
  "label_wording =
     \<lparr>phrase = (\<lambda>v. concat (labels v)),
      branch_text = (\<lambda>e. case edge_label e of None \<Rightarrow> [] | Some l \<Rightarrow> l)\<rparr>"

definition labelled_node :: "nat \<Rightarrow> semantic_class \<Rightarrow> string \<Rightarrow> logical_node" where
  "labelled_node i c l =
     \<lparr>node_id = i, shape = UnknownShape, node_class = c,
      geometry = \<lparr>x_min = 0, y_min = 0, x_max = 40, y_max = 40\<rparr>, center = (20, 20),
      area = 1600, confidence = 0.9, labels = [lit l]\<rparr>"

definition review_graph :: graph where
  "review_graph =
     \<lparr>g_nodes = [labelled_node 0 CStart ''Start'', labelled_node 1 CDecision ''Approved?'',
                 labelled_node 2 CEnd ''End'', labelled_node 3 CProcess ''Fix''],
      g_edges = [\<lparr>source = 0, target = 1, edge_label = None\<rparr>,
                 \<lparr>source = 1, target = 3, edge_label = Some (lit ''No'')\<rparr>,
                 \<lparr>source = 1, target = 2, edge_label = Some (lit ''Yes'')\<rparr>,
                 \<lparr>source = 3, target = 1, edge_label = None\<rparr>]\<rparr>"

text \<open>The graph of the scenario of section 8: Start, Process A, End, in a line.\<close>

definition linear_graph :: graph where
  "linear_graph =
     \<lparr>g_nodes = [labelled_node 0 CStart ''Start'', labelled_node 1 CProcess ''Process A'',
                 labelled_node 2 CEnd ''End''],
      g_edges = [\<lparr>source = 0, target = 1, edge_label = None\<rparr>,
                 \<lparr>source = 1, target = 2, edge_label = None\<rparr>]\<rparr>"

text \<open>A decision node with six outgoing edges, of every polarity, in no order.\<close>

definition polarity_graph :: graph where
  "polarity_graph =
     \<lparr>g_nodes = [labelled_node 0 CStart ''Start'', labelled_node 1 CDecision ''Valid?'',
                 labelled_node 2 CProcess ''A'', labelled_node 3 CEnd ''End''],
      g_edges = [\<lparr>source = 0, target = 1, edge_label = None\<rparr>,
                 \<lparr>source = 1, target = 2, edge_label = None\<rparr>,
                 \<lparr>source = 1, target = 3, edge_label = Some (lit ''No'')\<rparr>,
                 \<lparr>source = 1, target = 2, edge_label = Some (lit ''TRUE'')\<rparr>,
                 \<lparr>source = 1, target = 3, edge_label = Some (lit ''false'')\<rparr>,
                 \<lparr>source = 1, target = 2, edge_label = Some (lit ''Yes'')\<rparr>,
                 \<lparr>source = 1, target = 3, edge_label = Some (lit ''Maybe'')\<rparr>]\<rparr>"

text \<open>A graph with no start node.\<close>

definition headless_graph :: graph where
  "headless_graph =
     \<lparr>g_nodes = [labelled_node 0 CProcess ''Process A'', labelled_node 1 CEnd ''End''],
      g_edges = [\<lparr>source = 0, target = 1, edge_label = None\<rparr>]\<rparr>"

section \<open>Theorems\<close>

subsection \<open>Strings\<close>

lemma lit_append: "lit (a @ b) = lit a @ lit b"
  by (simp add: lit_def)

lemma lit_eq_iff: "(lit a = lit b) = (a = b)"
  unfolding lit_def by (simp add: inj_map_eq_map inj_on_def)

lemma js_startsWith_iff: "js_startsWith s p = (\<exists>r. s = p @ r)"
  unfolding js_startsWith_def
  by (metis append_eq_conv_conj append_take_drop_id)

lemma js_includes_iff: "js_includes s p = (\<exists>a b. s = a @ p @ b)"
proof (induction s)
  case Nil
  then show ?case by auto
next
  case (Cons x xs)
  show ?case
  proof
    assume "js_includes (x # xs) p"
    then consider "js_startsWith (x # xs) p" | "js_includes xs p" by auto
    then show "\<exists>a b. x # xs = a @ p @ b"
    proof cases
      case 1
      then obtain r where "x # xs = p @ r" by (auto simp: js_startsWith_iff)
      then have "x # xs = [] @ p @ r" by simp
      then show ?thesis by blast
    next
      case 2
      then obtain a b where "xs = a @ p @ b" using Cons.IH by auto
      then have "x # xs = (x # a) @ p @ b" by simp
      then show ?thesis by blast
    qed
  next
    assume "\<exists>a b. x # xs = a @ p @ b"
    then obtain a b where ab: "x # xs = a @ p @ b" by blast
    show "js_includes (x # xs) p"
    proof (cases a)
      case Nil
      then have "js_startsWith (x # xs) p" using ab unfolding js_startsWith_iff by auto
      then show ?thesis by (simp only: js_includes.simps) simp
    next
      case (Cons y ys)
      then have "xs = ys @ p @ b" using ab by simp
      then show ?thesis using Cons.IH by auto
    qed
  qed
qed

lemma js_split_nonempty: "js_split s c \<noteq> []"
  by (induction s) (auto split: list.splits)

lemma js_split_first: "js_split s c = takeWhile (\<lambda>x. x \<noteq> c) s # tl (js_split s c)"
  by (induction s) (auto split: list.splits simp: js_split_nonempty)

subsection \<open>The API service\<close>

text \<open>
  C6: when the fetch to /analyze resolves with a response, \<open>analyzeDiagram\<close> throws an
  Error whose message is \<open>Analysis failed:\<close> followed by the status text exactly when
  the response is not ok; for an ok response it returns what \<open>response.json()\<close> gives,
  the parsed body when the body parses. A failure is never returned as a value: a
  value the function returns is the parsed body of an ok response, and a fetch that
  rejects, or a body that does not parse, rejects the promise.
\<close>

theorem analyzeDiagram_surfaces_failure:
  "(\<forall>r. fetch e (analyze_request e f) = Inr r \<longrightarrow>
      (\<not> ok r \<longrightarrow> analyzeDiagram e f = Inl (Error (lit ''Analysis failed: '' @ statusText r)))
    \<and> ((\<exists>m. analyzeDiagram e f = Inl (Error m) \<and> sublist (lit ''Analysis failed:'') m
            \<and> sublist (statusText r) m) = (\<not> ok r))
    \<and> (ok r \<longrightarrow> analyzeDiagram e f
                  = (case json r of Inl m \<Rightarrow> Inl (SyntaxError m) | Inr v \<Rightarrow> Inr v)))
   \<and> (\<forall>m. fetch e (analyze_request e f) = Inl m \<longrightarrow> analyzeDiagram e f = Inl (TypeError m))
   \<and> (\<forall>v. analyzeDiagram e f = Inr v \<longrightarrow>
         (\<exists>r. fetch e (analyze_request e f) = Inr r \<and> ok r \<and> json r = Inr v))"
proof -
  have pre: "\<And>t. sublist (lit ''Analysis failed:'') (lit ''Analysis failed: '' @ t)"
  proof -
    fix t :: js_string
    have "lit ''Analysis failed: '' @ t = [] @ lit ''Analysis failed:'' @ (lit '' '' @ t)"
      by (simp add: lit_def)
    then show "sublist (lit ''Analysis failed:'') (lit ''Analysis failed: '' @ t)"
      unfolding sublist_def by blast
  qed
  have suf: "\<And>t. sublist t (lit ''Analysis failed: '' @ t)"
    unfolding sublist_def by (metis append_Nil2)
  show ?thesis
  proof (cases "fetch e (analyze_request e f)")
    case (Inl m)
    then show ?thesis by (simp add: analyzeDiagram_def)
  next
    case (Inr r)
    then show ?thesis
      using pre[of "statusText r"] suf[of "statusText r"]
      by (auto simp: analyzeDiagram_def split: sum.splits)
  qed
qed

text \<open>C6 at a response 404 Not Found, and at an ok response with a JSON body.\<close>

theorem analyzeDiagram_surfaces_failure_witness:
  "analyzeDiagram \<lparr>VITE_API_URL = None,
       fetch = (\<lambda>q::unit request. Inr \<lparr>ok = False, statusText = lit ''Not Found'', json = Inl []\<rparr>)\<rparr> ()
     = Inl (Error (lit ''Analysis failed: Not Found''))
   \<and> analyzeDiagram \<lparr>VITE_API_URL = None,
       fetch = (\<lambda>q::unit request. Inr \<lparr>ok = True, statusText = lit ''OK'',
                  json = Inr (JObj [(lit ''success'', JBool True)])\<rparr>)\<rparr> ()
     = Inr (JObj [(lit ''success'', JBool True)])"
  using analyzeDiagram_surfaces_failure
    [of "\<lparr>VITE_API_URL = None,
       fetch = (\<lambda>q::unit request. Inr \<lparr>ok = False, statusText = lit ''Not Found'', json = Inl []\<rparr>)\<rparr>"
      "()"]
    analyzeDiagram_surfaces_failure
    [of "\<lparr>VITE_API_URL = None,
       fetch = (\<lambda>q::unit request. Inr \<lparr>ok = True, statusText = lit ''OK'',
                  json = Inr (JObj [(lit ''success'', JBool True)])\<rparr>)\<rparr>"
      "()"]
  by (simp add: lit_def)

text \<open>
  C9: \<open>healthCheck\<close> never throws; whatever the fetch to /health does, it returns a
  boolean, and that boolean is \<open>true\<close> exactly when the fetch resolved with a response
  whose \<open>ok\<close> is true.
\<close>

theorem healthCheck_total:
  "(\<exists>b. healthCheck e = Inr b) \<and>
   (healthCheck e = Inr True) = (\<exists>r. fetch e (health_request e) = Inr r \<and> ok r) \<and>
   (healthCheck e = Inr False) = (\<not> (\<exists>r. fetch e (health_request e) = Inr r \<and> ok r))"
  by (auto simp: healthCheck_def healthCheck_try_def split: sum.splits)

text \<open>C9 at a fetch that rejects, and at one that resolves with an ok response.\<close>

theorem healthCheck_total_witness:
  "healthCheck \<lparr>VITE_API_URL = None, fetch = (\<lambda>q::unit request. Inl (lit ''Failed to fetch''))\<rparr> = Inr False
   \<and> healthCheck \<lparr>VITE_API_URL = None,
        fetch = (\<lambda>q::unit request. Inr \<lparr>ok = True, statusText = lit ''OK'', json = Inl []\<rparr>)\<rparr> = Inr True"
  using healthCheck_total
    [of "\<lparr>VITE_API_URL = None, fetch = (\<lambda>q::unit request. Inl (lit ''Failed to fetch''))\<rparr>"]
    healthCheck_total
    [of "\<lparr>VITE_API_URL = None,
        fetch = (\<lambda>q::unit request. Inr \<lparr>ok = True, statusText = lit ''OK'', json = Inl []\<rparr>)\<rparr>"]
  by simp

subsection \<open>The upload handler\<close>

lemma js_or_fallback_truthy: "truthy b \<Longrightarrow> truthy (js_or a b)"
  by (simp add: js_or_def)

lemma get_prop_defined:
  "get_prop result k = Inr s \<Longrightarrow> \<exists>d. get_prop result k' = Inr d"
  by (cases result) auto

text \<open>
  C10: whatever the state is when the promise of \<open>analyzeDiagram\<close> settles, the handler
  ends with \<open>loading\<close> false. The callback \<open>onUploadSuccess\<close> runs, once and with
  \<open>result.data\<close>, exactly when the API call returned a result whose \<open>success\<close> is truthy
  (the log of the calls is then that one entry). In every other outcome the parent's
  state is unchanged, nothing is logged, and of the component's own state only \<open>error\<close>
  (set to a truthy message) and \<open>loading\<close> are written. With a file selected the handler
  is this continuation after \<open>loading\<close> was set and the message cleared; with none it
  only sets the message.
\<close>

theorem handleUpload_atomic:
  "loading (fst (handleUpload_settled r cb (v, q))) = False
   \<and> ((\<exists>d. snd (handleUpload_settled r (\<lambda>d l. l @ [d]) (v, [])) = [d])
        = (\<exists>result s. r = Inr result \<and> get_prop result (lit ''success'') = Inr s \<and> truthy s))
   \<and> (\<forall>result s. r = Inr result \<and> get_prop result (lit ''success'') = Inr s \<and> truthy s
        \<longrightarrow> (\<exists>d. get_prop result (lit ''data'') = Inr d
               \<and> handleUpload_settled r cb (v, q) = (v\<lparr>loading := False\<rparr>, cb d q)
               \<and> snd (handleUpload_settled r (\<lambda>d l. l @ [d]) (v, [])) = [d]))
   \<and> (\<not> (\<exists>result s. r = Inr result \<and> get_prop result (lit ''success'') = Inr s \<and> truthy s)
        \<longrightarrow> snd (handleUpload_settled r cb (v, q)) = q
           \<and> snd (handleUpload_settled r (\<lambda>d l. l @ [d]) (v, [])) = []
           \<and> truthy (error (fst (handleUpload_settled r cb (v, q))))
           \<and> fst (handleUpload_settled r cb (v, q))
               = v\<lparr>loading := False, error := error (fst (handleUpload_settled r cb (v, q)))\<rparr>)
   \<and> (\<forall>f. selected_file u = Some f
        \<longrightarrow> handleUpload e cb (u, p)
            = handleUpload_settled (analyzeDiagram e f) cb
                (u\<lparr>loading := True, error := JStr (lit '''')\<rparr>, p)
          \<and> loading (fst (handleUpload e cb (u, p))) = False)
   \<and> (selected_file u = None
        \<longrightarrow> handleUpload e cb (u, p) = (u\<lparr>error := JStr (lit ''Please select a file'')\<rparr>, p))"
proof -
  have t1: "truthy (JStr (lit ''Upload failed''))" by (simp add: lit_def)
  have t2: "truthy (JStr (lit ''An error occurred during analysis''))" by (simp add: lit_def)
  have settled: "loading (fst (handleUpload_settled r cb (v, q))) = False
   \<and> ((\<exists>d. snd (handleUpload_settled r (\<lambda>d l. l @ [d]) (v, [])) = [d])
        = (\<exists>result s. r = Inr result \<and> get_prop result (lit ''success'') = Inr s \<and> truthy s))
   \<and> (\<forall>result s. r = Inr result \<and> get_prop result (lit ''success'') = Inr s \<and> truthy s
        \<longrightarrow> (\<exists>d. get_prop result (lit ''data'') = Inr d
               \<and> handleUpload_settled r cb (v, q) = (v\<lparr>loading := False\<rparr>, cb d q)
               \<and> snd (handleUpload_settled r (\<lambda>d l. l @ [d]) (v, [])) = [d]))
   \<and> (\<not> (\<exists>result s. r = Inr result \<and> get_prop result (lit ''success'') = Inr s \<and> truthy s)
        \<longrightarrow> snd (handleUpload_settled r cb (v, q)) = q
           \<and> snd (handleUpload_settled r (\<lambda>d l. l @ [d]) (v, [])) = []
           \<and> truthy (error (fst (handleUpload_settled r cb (v, q))))
           \<and> fst (handleUpload_settled r cb (v, q))
               = v\<lparr>loading := False, error := error (fst (handleUpload_settled r cb (v, q)))\<rparr>)"
  proof (cases r)
    case (Inl x)
    then show ?thesis
      using js_or_fallback_truthy[OF t2]
      by (auto simp: handleUpload_settled_def handleUpload_try_def Let_def)
  next
    case (Inr result)
    show ?thesis
    proof (cases "get_prop result (lit ''success'')")
      case (Inl x)
      then show ?thesis
        using Inr js_or_fallback_truthy[OF t2]
        by (auto simp: handleUpload_settled_def handleUpload_try_def Let_def)
    next
      case s: (Inr s)
      obtain d where d: "get_prop result (lit ''data'') = Inr d"
        using get_prop_defined[OF s] by blast
      obtain m where m: "get_prop result (lit ''message'') = Inr m"
        using get_prop_defined[OF s] by blast
      show ?thesis
      proof (cases "truthy s")
        case True
        then show ?thesis
          using Inr s d
          by (auto simp: handleUpload_settled_def handleUpload_try_def Let_def)
      next
        case False
        then show ?thesis
          using Inr s m js_or_fallback_truthy[OF t1]
          by (auto simp: handleUpload_settled_def handleUpload_try_def Let_def)
      qed
    qed
  qed
  have whole: "\<forall>f. selected_file u = Some f
        \<longrightarrow> handleUpload e cb (u, p)
            = handleUpload_settled (analyzeDiagram e f) cb
                (u\<lparr>loading := True, error := JStr (lit '''')\<rparr>, p)
          \<and> loading (fst (handleUpload e cb (u, p))) = False"
    by (simp add: handleUpload_def handleUpload_settled_def Let_def)
  have none: "selected_file u = None
        \<longrightarrow> handleUpload e cb (u, p) = (u\<lparr>error := JStr (lit ''Please select a file'')\<rparr>, p)"
    by (simp add: handleUpload_def)
  show ?thesis using settled whole none by blast
qed

text \<open>
  C10 at a response whose body says \<open>success: false\<close> (the analysis shown stays, the
  message is set), and at one that succeeds (the callback is logged once).
\<close>

theorem handleUpload_atomic_witness:
  "handleUpload
     \<lparr>VITE_API_URL = None,
      fetch = (\<lambda>q::unit request. Inr \<lparr>ok = True, statusText = lit ''OK'',
                 json = Inr (JObj [(lit ''success'', JBool False), (lit ''message'', JStr (lit ''bad image''))])\<rparr>)\<rparr>
     handleUploadSuccess
     (\<lparr>selected_file = Some (), loading = False, error = JStr [], preview = []\<rparr>,
      \<lparr>analysisResult = JNum 7, apiStatus = lit ''connected'', errorMessage = []\<rparr>)
   = (\<lparr>selected_file = Some (), loading = False, error = JStr (lit ''bad image''), preview = []\<rparr>,
      \<lparr>analysisResult = JNum 7, apiStatus = lit ''connected'', errorMessage = []\<rparr>)
   \<and> snd (handleUpload_settled
            (Inr (JObj [(lit ''success'', JBool True), (lit ''data'', JNum 3)]))
            (\<lambda>d l. l @ [d])
            (\<lparr>selected_file = Some (), loading = True, error = JStr [], preview = []\<rparr>, [])) = [JNum 3]"
  using handleUpload_atomic
    [where r = "Inr (JObj [(lit ''success'', JBool True), (lit ''data'', JNum 3)])"
      and cb = "(\<lambda>d l. l @ [d])"
      and v = "\<lparr>selected_file = Some (), loading = True, error = JStr [], preview = []\<rparr>"
      and q = "[]"
      and u = "\<lparr>selected_file = Some (), loading = False, error = JStr [], preview = []\<rparr>"
      and e = "\<lparr>VITE_API_URL = None,
      fetch = (\<lambda>q::unit request. Inr \<lparr>ok = True, statusText = lit ''OK'',
                 json = Inr (JObj [(lit ''success'', JBool True), (lit ''data'', JNum 3)])\<rparr>)\<rparr>"
      and p = "[]"]
    handleUpload_atomic
    [where r = "Inr (JObj [(lit ''success'', JBool False), (lit ''message'', JStr (lit ''bad image''))])"
      and cb = handleUploadSuccess
      and v = "\<lparr>selected_file = Some (), loading = True, error = JStr [], preview = []\<rparr>"
      and q = "\<lparr>analysisResult = JNum 7, apiStatus = lit ''connected'', errorMessage = []\<rparr>"
      and u = "\<lparr>selected_file = Some (), loading = False, error = JStr [], preview = []\<rparr>"
      and e = "\<lparr>VITE_API_URL = None,
      fetch = (\<lambda>q::unit request. Inr \<lparr>ok = True, statusText = lit ''OK'',
                 json = Inr (JObj [(lit ''success'', JBool False), (lit ''message'', JStr (lit ''bad image''))])\<rparr>)\<rparr>"
      and p = "\<lparr>analysisResult = JNum 7, apiStatus = lit ''connected'', errorMessage = []\<rparr>"]
  by (simp add: handleUpload_def handleUpload_settled_def handleUpload_try_def analyzeDiagram_def
      handleUploadSuccess_def js_or_def lit_def)

subsection \<open>The result view\<close>

lemma elements_self: "h \<in> set (elements h)"
  by (cases h) auto

lemma get_prop_throws: "(\<exists>x. get_prop v k = Inl x) = (v = JNull \<or> v = JUndefined)"
  by (cases v) auto

lemma map_throwing_Inr:
  "(map_throwing f xs = Inr ys) = list_all2 (\<lambda>x y. f x = Inr y) xs ys"
proof (induction xs arbitrary: ys)
  case Nil
  then show ?case by auto
next
  case (Cons x xs)
  show ?case
  proof (cases ys)
    case Nil
    then show ?thesis by (auto split: sum.splits)
  next
    case (Cons y ys')
    then show ?thesis using Cons.IH[of ys'] by (auto split: sum.splits)
  qed
qed

lemma map_throwing_ok:
  "(\<exists>ys. map_throwing f xs = Inr ys) = (\<forall>x \<in> set xs. \<exists>y. f x = Inr y)"
proof (induction xs)
  case Nil
  then show ?case by simp
next
  case (Cons x xs)
  then show ?case by (auto split: sum.splits)
qed

lemma graphData_node_ok: "(\<exists>y. graphData_node v = Inr y) = (v \<noteq> JNull \<and> v \<noteq> JUndefined)"
  by (cases v) (auto simp: graphData_node_def)

lemma graphData_link_ok: "(\<exists>y. graphData_link v = Inr y) = (v \<noteq> JNull \<and> v \<noteq> JUndefined)"
  by (cases v) (auto simp: graphData_link_def)

lemma graphData_ok:
  "(\<exists>gd. graphData ns es = Inr gd)
     = (\<forall>x \<in> set ns \<union> set es. x \<noteq> JNull \<and> x \<noteq> JUndefined)"
proof -
  have n: "(\<exists>gn. map_throwing graphData_node ns = Inr gn) = (\<forall>x \<in> set ns. x \<noteq> JNull \<and> x \<noteq> JUndefined)"
    using map_throwing_ok[of graphData_node ns] graphData_node_ok by blast
  have l: "(\<exists>gl. map_throwing graphData_link es = Inr gl) = (\<forall>x \<in> set es. x \<noteq> JNull \<and> x \<noteq> JUndefined)"
    using map_throwing_ok[of graphData_link es] graphData_link_ok by blast
  show ?thesis
  proof (cases "map_throwing graphData_node ns")
    case (Inl x)
    then show ?thesis using n by (auto simp: graphData_def)
  next
    case (Inr gn)
    then show ?thesis using n l
      by (cases "map_throwing graphData_link es") (auto simp: graphData_def)
  qed
qed

lemma render_step_Inr: "(render_step v = Inr h) = (\<exists>s. v = JStr s \<and> h = narrative_item s)"
  by (cases v) auto

lemma render_steps_Inr:
  "(map_throwing render_step steps = Inr items)
     = (\<exists>ss. steps = map JStr ss \<and> items = map narrative_item ss)"
proof (induction steps arbitrary: items)
  case Nil
  then show ?case by auto
next
  case (Cons v vs)
  show ?case
  proof
    assume a: "map_throwing render_step (v # vs) = Inr items"
    then obtain h hs where h: "render_step v = Inr h" and hs: "map_throwing render_step vs = Inr hs"
      and i: "items = h # hs"
      by (auto split: sum.splits)
    obtain s where s: "v = JStr s" "h = narrative_item s" using h render_step_Inr by auto
    obtain ss where ss: "vs = map JStr ss" "hs = map narrative_item ss" using hs Cons.IH by auto
    have "v # vs = map JStr (s # ss) \<and> items = map narrative_item (s # ss)"
      using s ss i by simp
    then show "\<exists>ss. v # vs = map JStr ss \<and> items = map narrative_item ss"
      by (rule exI[of _ "s # ss"])
  next
    assume "\<exists>ss. v # vs = map JStr ss \<and> items = map narrative_item ss"
    then obtain ss where ss0: "v # vs = map JStr ss \<and> items = map narrative_item ss" ..
    then have ss: "v # vs = map JStr ss" "items = map narrative_item ss" by simp_all
    then obtain s ss' where c: "ss = s # ss'" by (cases ss) auto
    then have "map_throwing render_step vs = Inr (map narrative_item ss')"
      using ss Cons.IH[of "map narrative_item ss'"] by auto
    then show "map_throwing render_step (v # vs) = Inr items"
      using ss c by auto
  qed
qed

text \<open>The page of the steps view.\<close>

lemma steps_section_Inr:
  "(steps_section steps = Inr sec)
     = ((steps = [] \<and> sec = Elem ''div'' (lit ''steps-section'') [steps_header, no_logic_message])
        \<or> (\<exists>ss. ss \<noteq> [] \<and> steps = map JStr ss
              \<and> sec = Elem ''div'' (lit ''steps-section'')
                        [steps_header, Elem ''div'' (lit ''narrative-list'') (map narrative_item ss)]))"
proof (cases "steps = []")
  case True
  then show ?thesis by (auto simp: steps_section_def)
next
  case False
  show ?thesis
  proof (cases "map_throwing render_step steps")
    case (Inl x)
    then have "\<not> (\<exists>ss. steps = map JStr ss)"
      using render_steps_Inr[of steps] by (metis Inl_Inr_False)
    then show ?thesis using False Inl by (auto simp: steps_section_def)
  next
    case (Inr items)
    then obtain ss where ss: "steps = map JStr ss" "items = map narrative_item ss"
      using render_steps_Inr by blast
    have inj: "\<And>ss'. map JStr ss = map JStr ss' \<Longrightarrow> ss = ss'"
      by (simp add: inj_map_eq_map inj_on_def)
    show ?thesis using False Inr ss inj by (auto simp: steps_section_def)
  qed
qed

lemma GraphView_page:
  "(GraphView tabs (Some d) viewMode = Inr page)
     = (\<exists>gd t. graphData (nodes_of d) (edges_of d) = Inr gd
          \<and> (if viewMode = StepsMode then steps_section (narrative_of d) else tabs d gd viewMode) = Inr t
          \<and> page = Elem ''div'' (lit ''graph-view-container'')
                     [view_controls d viewMode, Elem ''div'' (lit ''graph-content'') [t],
                      metadata_block (graphMetadata_of d)])"
  by (auto simp: GraphView_def graph_content_def split: sum.splits)


lemma js_split_hd:
  "(case js_split s c of [] \<Rightarrow> [] | seg # _ \<Rightarrow> seg) = takeWhile (\<lambda>x. x \<noteq> c) s"
  by (subst js_split_first) simp

lemma narrative_item_explicit:
  "narrative_item step =
     Elem ''div''
       (lit ''narrative-item '' @ (if \<exists>a b. step = a @ [8627] @ b then lit ''indent-branch'' else []))
       [Elem ''span'' (lit ''step-marker'')
          [Text (if \<exists>r. step = lit ''Step'' @ r then takeWhile (\<lambda>c. c \<noteq> 58) step else [8226])],
        Elem ''span'' (lit ''step-content'') [HighlightText (step_content step)]]"
proof -
  have cls: "item_className step =
      lit ''narrative-item '' @ (if \<exists>a b. step = a @ [8627] @ b then lit ''indent-branch'' else [])"
    by (simp add: item_className_def js_includes_iff branch_arrow_def lit_def)
  have mk: "step_marker step =
      (if \<exists>r. step = lit ''Step'' @ r then takeWhile (\<lambda>c. c \<noteq> 58) step else [8226])"
    by (simp add: step_marker_def js_startsWith_iff js_split_hd bullet_def colon_def)
  show ?thesis by (simp only: narrative_item_def cls mk)
qed

lemma GraphView_steps_page:
  "(GraphView tabs (Some d) StepsMode = Inr page)
     = ((\<forall>x \<in> set (nodes_of d) \<union> set (edges_of d). x \<noteq> JNull \<and> x \<noteq> JUndefined)
        \<and> (\<exists>ss. narrative_of d = map JStr ss
              \<and> page = Elem ''div'' (lit ''graph-view-container'')
                     [view_controls d StepsMode,
                      Elem ''div'' (lit ''graph-content'')
                        [Elem ''div'' (lit ''steps-section'')
                           [steps_header,
                            if ss = [] then no_logic_message
                            else Elem ''div'' (lit ''narrative-list'') (map narrative_item ss)]],
                      metadata_block (graphMetadata_of d)]))"
  unfolding GraphView_page graphData_ok[symmetric]
  by (auto simp: steps_section_Inr)


lemma sanity_not_in_controls:
  "Elem ''div'' (lit ''sanity-check-area'') cs \<notin> set (elements (view_controls d viewMode))"
  by (simp add: view_controls_def control_btn_def lit_eq_iff)

lemma sanity_not_in_items:
  "Elem ''div'' (lit ''sanity-check-area'') cs \<notin> \<Union> (set ` elements ` narrative_item ` set ss)"
  by (auto simp: narrative_item_def item_className_def lit_def)

lemma sanity_not_in_steps:
  "Elem ''div'' (lit ''sanity-check-area'') cs
     \<notin> set (elements (Elem ''div'' (lit ''steps-section'')
                [steps_header,
                 if ss = [] then no_logic_message
                 else Elem ''div'' (lit ''narrative-list'') (map narrative_item ss)]))"
  using sanity_not_in_items[of cs ss]
  by (auto simp: steps_header_def no_logic_message_def lit_eq_iff)

lemma metadata_block_explicit:
  "metadata_block (graphMetadata_of d) =
     Elem ''div'' (lit ''graph-metadata'')
       ([Elem ''div'' (lit ''metadata-header'')
           [Elem ''h4'' [] [Text (lit ''Accuracy Metrics & Logic'')],
            Elem ''span'' (lit ''accuracy-badge'') [Text (lit ''High Improvement'')]],
         Elem ''div'' (lit ''metrics-grid'')
           [Elem ''div'' (lit ''metric-card'')
              [Elem ''span'' (lit ''metric-label'') [Text (lit ''Nodes Detected'')],
               Elem ''span'' (lit ''metric-value'')
                 [Expr (case graph_metadata d of None \<Rightarrow> JUndefined | Some m \<Rightarrow> node_count m)]],
            Elem ''div'' (lit ''metric-card highlight'')
              [Elem ''span'' (lit ''metric-label'') [Text (lit ''Noise Reduction'')],
               Elem ''span'' (lit ''metric-value'')
                 [Expr (case graph_metadata d of None \<Rightarrow> JUndefined | Some m \<Rightarrow> metadata_json.node_reduction_pct m),
                  Text (lit ''%'')]]]]
        @ (case graph_metadata d of
             None \<Rightarrow> []
           | Some m \<Rightarrow>
               (case sanity_violations m of
                  None \<Rightarrow> []
                | Some vs \<Rightarrow>
                    if vs = [] then []
                    else [Elem ''div'' (lit ''sanity-check-area'')
                            [Elem ''h5'' (lit ''warning-title'')
                               [Text ([9888, 65039] @ lit '' Logic Sanity Warnings'')],
                             Elem ''ul'' (lit ''violations-list'')
                               (map (\<lambda>v. Elem ''li'' [] [Text v]) vs)]])))"
  by (simp add: metadata_block_def graphMetadata_of_def sanity_part_def sanity_check_area_def
      split: option.splits)

lemma sanity_in_metadata:
  "(\<exists>cs. Elem ''div'' (lit ''sanity-check-area'') cs
           \<in> set (elements (metadata_block (graphMetadata_of d))))
     = (\<exists>m vs. graph_metadata d = Some m \<and> sanity_violations m = Some vs \<and> vs \<noteq> [])"
proof (cases "graph_metadata d")
  case None
  then show ?thesis
    by (simp add: metadata_block_def graphMetadata_of_def sanity_part_def lit_eq_iff)
next
  case (Some m)
  show ?thesis
  proof (cases "sanity_violations m")
    case None
    then show ?thesis using Some
      by (simp add: metadata_block_def graphMetadata_of_def sanity_part_def lit_eq_iff)
  next
    case (Some vs)
    then show ?thesis using \<open>graph_metadata d = Some m\<close>
      by (cases "vs = []")
        (auto simp: metadata_block_def graphMetadata_of_def sanity_part_def sanity_check_area_def
          lit_eq_iff)
  qed
qed


text \<open>
  C7: in every view mode the page that GraphView renders is the view controls, the
  content of the chosen tab and the metadata block. The metadata block ends with the
  sanity-check area exactly when \<open>graph.metadata.sanity_violations\<close> is a non-empty
  list; the area is then its title and a list with one \<open>li\<close> for each violation, in the
  order of the list. The controls hold no such area, and neither does the steps view,
  so that the page of the steps view holds a sanity-check area exactly when the list is
  non-empty. Beside the metadata block the content is, in the steps view, the narrative
  item by item and, in another view, what the tab renders for the nodes and edges. A
  page is rendered exactly when no element of \<open>nodes\<close> or \<open>edges\<close> is \<open>null\<close> or
  \<open>undefined\<close> and the content renders; the steps view renders when every step is a
  string.
\<close>

theorem sanity_warnings_visible:
  "(\<forall>page. GraphView tabs (Some d) viewMode = Inr page \<longrightarrow>
      (\<exists>content.
          page = Elem ''div'' (lit ''graph-view-container'')
                   [view_controls d viewMode,
                    Elem ''div'' (lit ''graph-content'') [content],
                    Elem ''div'' (lit ''graph-metadata'')
                      ([Elem ''div'' (lit ''metadata-header'')
                          [Elem ''h4'' [] [Text (lit ''Accuracy Metrics & Logic'')],
                           Elem ''span'' (lit ''accuracy-badge'') [Text (lit ''High Improvement'')]],
                        Elem ''div'' (lit ''metrics-grid'')
                          [Elem ''div'' (lit ''metric-card'')
                             [Elem ''span'' (lit ''metric-label'') [Text (lit ''Nodes Detected'')],
                              Elem ''span'' (lit ''metric-value'')
                                [Expr (case graph_metadata d of
                                         None \<Rightarrow> JUndefined
                                       | Some m \<Rightarrow> node_count m)]],
                           Elem ''div'' (lit ''metric-card highlight'')
                             [Elem ''span'' (lit ''metric-label'') [Text (lit ''Noise Reduction'')],
                              Elem ''span'' (lit ''metric-value'')
                                [Expr (case graph_metadata d of
                                         None \<Rightarrow> JUndefined
                                       | Some m \<Rightarrow> metadata_json.node_reduction_pct m),
                                 Text (lit ''%'')]]]]
                       @ (case graph_metadata d of
                            None \<Rightarrow> []
                          | Some m \<Rightarrow>
                              (case sanity_violations m of
                                 None \<Rightarrow> []
                               | Some vs \<Rightarrow>
                                   if vs = [] then []
                                   else [Elem ''div'' (lit ''sanity-check-area'')
                                           [Elem ''h5'' (lit ''warning-title'')
                                              [Text ([9888, 65039] @ lit '' Logic Sanity Warnings'')],
                                            Elem ''ul'' (lit ''violations-list'')
                                              (map (\<lambda>v. Elem ''li'' [] [Text v]) vs)]])))]
        \<and> (if viewMode = StepsMode
            then (\<exists>ss. (case logical_graph_narrative d of None \<Rightarrow> [] | Some n \<Rightarrow> n) = map JStr ss
                    \<and> content = Elem ''div'' (lit ''steps-section'')
                                  [steps_header,
                                   if ss = [] then no_logic_message
                                   else Elem ''div'' (lit ''narrative-list'') (map narrative_item ss)])
            else (\<exists>gd. graphData (case nodes d of None \<Rightarrow> [] | Some ns \<Rightarrow> ns)
                                 (case edges d of None \<Rightarrow> [] | Some es \<Rightarrow> es) = Inr gd
                    \<and> tabs d gd viewMode = Inr content))
        \<and> (\<forall>cs. Elem ''div'' (lit ''sanity-check-area'') cs
                   \<notin> set (elements (view_controls d viewMode)))
        \<and> (viewMode = StepsMode \<longrightarrow>
             (\<forall>cs. Elem ''div'' (lit ''sanity-check-area'') cs \<notin> set (elements content)))))
   \<and> ((\<exists>page. GraphView tabs (Some d) viewMode = Inr page)
        = ((\<forall>x \<in> set (case nodes d of None \<Rightarrow> [] | Some ns \<Rightarrow> ns)
                  \<union> set (case edges d of None \<Rightarrow> [] | Some es \<Rightarrow> es).
              x \<noteq> JNull \<and> x \<noteq> JUndefined)
           \<and> (if viewMode = StepsMode
               then (\<exists>ss. (case logical_graph_narrative d of None \<Rightarrow> [] | Some n \<Rightarrow> n) = map JStr ss)
               else (\<exists>gd t. graphData (case nodes d of None \<Rightarrow> [] | Some ns \<Rightarrow> ns)
                                       (case edges d of None \<Rightarrow> [] | Some es \<Rightarrow> es) = Inr gd
                        \<and> tabs d gd viewMode = Inr t))))
   \<and> (\<forall>page. GraphView tabs (Some d) StepsMode = Inr page \<longrightarrow>
        ((\<exists>cs. Elem ''div'' (lit ''sanity-check-area'') cs \<in> set (elements page))
           = (\<exists>m vs. graph_metadata d = Some m \<and> sanity_violations m = Some vs \<and> vs \<noteq> [])))"
proof -
  have c1: "(\<forall>page. GraphView tabs (Some d) viewMode = Inr page \<longrightarrow>
      (\<exists>content.
          page = Elem ''div'' (lit ''graph-view-container'')
                   [view_controls d viewMode,
                    Elem ''div'' (lit ''graph-content'') [content],
                    Elem ''div'' (lit ''graph-metadata'')
                      ([Elem ''div'' (lit ''metadata-header'')
                          [Elem ''h4'' [] [Text (lit ''Accuracy Metrics & Logic'')],
                           Elem ''span'' (lit ''accuracy-badge'') [Text (lit ''High Improvement'')]],
                        Elem ''div'' (lit ''metrics-grid'')
                          [Elem ''div'' (lit ''metric-card'')
                             [Elem ''span'' (lit ''metric-label'') [Text (lit ''Nodes Detected'')],
                              Elem ''span'' (lit ''metric-value'')
                                [Expr (case graph_metadata d of
                                         None \<Rightarrow> JUndefined
                                       | Some m \<Rightarrow> node_count m)]],
                           Elem ''div'' (lit ''metric-card highlight'')
                             [Elem ''span'' (lit ''metric-label'') [Text (lit ''Noise Reduction'')],
                              Elem ''span'' (lit ''metric-value'')
                                [Expr (case graph_metadata d of
                                         None \<Rightarrow> JUndefined
                                       | Some m \<Rightarrow> metadata_json.node_reduction_pct m),
                                 Text (lit ''%'')]]]]
                       @ (case graph_metadata d of
                            None \<Rightarrow> []
                          | Some m \<Rightarrow>
                              (case sanity_violations m of
                                 None \<Rightarrow> []
                               | Some vs \<Rightarrow>
                                   if vs = [] then []
                                   else [Elem ''div'' (lit ''sanity-check-area'')
                                           [Elem ''h5'' (lit ''warning-title'')
                                              [Text ([9888, 65039] @ lit '' Logic Sanity Warnings'')],
                                            Elem ''ul'' (lit ''violations-list'')
                                              (map (\<lambda>v. Elem ''li'' [] [Text v]) vs)]])))]
        \<and> (if viewMode = StepsMode
            then (\<exists>ss. (case logical_graph_narrative d of None \<Rightarrow> [] | Some n \<Rightarrow> n) = map JStr ss
                    \<and> content = Elem ''div'' (lit ''steps-section'')
                                  [steps_header,
                                   if ss = [] then no_logic_message
                                   else Elem ''div'' (lit ''narrative-list'') (map narrative_item ss)])
            else (\<exists>gd. graphData (case nodes d of None \<Rightarrow> [] | Some ns \<Rightarrow> ns)
                                 (case edges d of None \<Rightarrow> [] | Some es \<Rightarrow> es) = Inr gd
                    \<and> tabs d gd viewMode = Inr content))
        \<and> (\<forall>cs. Elem ''div'' (lit ''sanity-check-area'') cs
                   \<notin> set (elements (view_controls d viewMode)))
        \<and> (viewMode = StepsMode \<longrightarrow>
             (\<forall>cs. Elem ''div'' (lit ''sanity-check-area'') cs \<notin> set (elements content)))))"
  proof (intro allI impI)
    fix page
    assume p: "GraphView tabs (Some d) viewMode = Inr page"
    then obtain gd t where gd: "graphData (nodes_of d) (edges_of d) = Inr gd"
      and t: "(if viewMode = StepsMode then steps_section (narrative_of d) else tabs d gd viewMode) = Inr t"
      and page: "page = Elem ''div'' (lit ''graph-view-container'')
                     [view_controls d viewMode, Elem ''div'' (lit ''graph-content'') [t],
                      metadata_block (graphMetadata_of d)]"
      unfolding GraphView_page by blast
    have a: "page = Elem ''div'' (lit ''graph-view-container'')
                   [view_controls d viewMode,
                    Elem ''div'' (lit ''graph-content'') [t],
                    Elem ''div'' (lit ''graph-metadata'')
                      ([Elem ''div'' (lit ''metadata-header'')
                          [Elem ''h4'' [] [Text (lit ''Accuracy Metrics & Logic'')],
                           Elem ''span'' (lit ''accuracy-badge'') [Text (lit ''High Improvement'')]],
                        Elem ''div'' (lit ''metrics-grid'')
                          [Elem ''div'' (lit ''metric-card'')
                             [Elem ''span'' (lit ''metric-label'') [Text (lit ''Nodes Detected'')],
                              Elem ''span'' (lit ''metric-value'')
                                [Expr (case graph_metadata d of
                                         None \<Rightarrow> JUndefined
                                       | Some m \<Rightarrow> node_count m)]],
                           Elem ''div'' (lit ''metric-card highlight'')
                             [Elem ''span'' (lit ''metric-label'') [Text (lit ''Noise Reduction'')],
                              Elem ''span'' (lit ''metric-value'')
                                [Expr (case graph_metadata d of
                                         None \<Rightarrow> JUndefined
                                       | Some m \<Rightarrow> metadata_json.node_reduction_pct m),
                                 Text (lit ''%'')]]]]
                       @ (case graph_metadata d of
                            None \<Rightarrow> []
                          | Some m \<Rightarrow>
                              (case sanity_violations m of
                                 None \<Rightarrow> []
                               | Some vs \<Rightarrow>
                                   if vs = [] then []
                                   else [Elem ''div'' (lit ''sanity-check-area'')
                                           [Elem ''h5'' (lit ''warning-title'')
                                              [Text ([9888, 65039] @ lit '' Logic Sanity Warnings'')],
                                            Elem ''ul'' (lit ''violations-list'')
                                              (map (\<lambda>v. Elem ''li'' [] [Text v]) vs)]])))]"
      unfolding page metadata_block_explicit ..
    have b: "if viewMode = StepsMode
            then (\<exists>ss. (case logical_graph_narrative d of None \<Rightarrow> [] | Some n \<Rightarrow> n) = map JStr ss
                    \<and> t = Elem ''div'' (lit ''steps-section'')
                                  [steps_header,
                                   if ss = [] then no_logic_message
                                   else Elem ''div'' (lit ''narrative-list'') (map narrative_item ss)])
            else (\<exists>gd. graphData (case nodes d of None \<Rightarrow> [] | Some ns \<Rightarrow> ns)
                                 (case edges d of None \<Rightarrow> [] | Some es \<Rightarrow> es) = Inr gd
                    \<and> tabs d gd viewMode = Inr t)"
    proof (cases "viewMode = StepsMode")
      case True
      then have "steps_section (narrative_of d) = Inr t" using t by simp
      then show ?thesis using True unfolding steps_section_Inr narrative_of_def by auto
    next
      case False
      then show ?thesis using t gd unfolding nodes_of_def edges_of_def by auto
    qed
    have c: "viewMode = StepsMode \<longrightarrow>
             (\<forall>cs. Elem ''div'' (lit ''sanity-check-area'') cs \<notin> set (elements t))"
    proof
      assume "viewMode = StepsMode"
      then obtain ss where "t = Elem ''div'' (lit ''steps-section'')
                                  [steps_header,
                                   if ss = [] then no_logic_message
                                   else Elem ''div'' (lit ''narrative-list'') (map narrative_item ss)]"
        using b by auto
      then show "\<forall>cs. Elem ''div'' (lit ''sanity-check-area'') cs \<notin> set (elements t)"
        using sanity_not_in_steps[of _ ss] by simp
    qed
    show "\<exists>content.
          page = Elem ''div'' (lit ''graph-view-container'')
                   [view_controls d viewMode,
                    Elem ''div'' (lit ''graph-content'') [content],
                    Elem ''div'' (lit ''graph-metadata'')
                      ([Elem ''div'' (lit ''metadata-header'')
                          [Elem ''h4'' [] [Text (lit ''Accuracy Metrics & Logic'')],
                           Elem ''span'' (lit ''accuracy-badge'') [Text (lit ''High Improvement'')]],
                        Elem ''div'' (lit ''metrics-grid'')
                          [Elem ''div'' (lit ''metric-card'')
                             [Elem ''span'' (lit ''metric-label'') [Text (lit ''Nodes Detected'')],
                              Elem ''span'' (lit ''metric-value'')
                                [Expr (case graph_metadata d of
                                         None \<Rightarrow> JUndefined
                                       | Some m \<Rightarrow> node_count m)]],
                           Elem ''div'' (lit ''metric-card highlight'')
                             [Elem ''span'' (lit ''metric-label'') [Text (lit ''Noise Reduction'')],
                              Elem ''span'' (lit ''metric-value'')
                                [Expr (case graph_metadata d of
                                         None \<Rightarrow> JUndefined
                                       | Some m \<Rightarrow> metadata_json.node_reduction_pct m),
                                 Text (lit ''%'')]]]]
                       @ (case graph_metadata d of
                            None \<Rightarrow> []
                          | Some m \<Rightarrow>
                              (case sanity_violations m of
                                 None \<Rightarrow> []
                               | Some vs \<Rightarrow>
                                   if vs = [] then []
                                   else [Elem ''div'' (lit ''sanity-check-area'')
                                           [Elem ''h5'' (lit ''warning-title'')
                                              [Text ([9888, 65039] @ lit '' Logic Sanity Warnings'')],
                                            Elem ''ul'' (lit ''violations-list'')
                                              (map (\<lambda>v. Elem ''li'' [] [Text v]) vs)]])))]
        \<and> (if viewMode = StepsMode
            then (\<exists>ss. (case logical_graph_narrative d of None \<Rightarrow> [] | Some n \<Rightarrow> n) = map JStr ss
                    \<and> content = Elem ''div'' (lit ''steps-section'')
                                  [steps_header,
                                   if ss = [] then no_logic_message
                                   else Elem ''div'' (lit ''narrative-list'') (map narrative_item ss)])
            else (\<exists>gd. graphData (case nodes d of None \<Rightarrow> [] | Some ns \<Rightarrow> ns)
                                 (case edges d of None \<Rightarrow> [] | Some es \<Rightarrow> es) = Inr gd
                    \<and> tabs d gd viewMode = Inr content))
        \<and> (\<forall>cs. Elem ''div'' (lit ''sanity-check-area'') cs
                   \<notin> set (elements (view_controls d viewMode)))
        \<and> (viewMode = StepsMode \<longrightarrow>
             (\<forall>cs. Elem ''div'' (lit ''sanity-check-area'') cs \<notin> set (elements content)))"
      using a b c sanity_not_in_controls by (intro exI[of _ t] conjI allI) 
    qed
  have c2: "((\<exists>page. GraphView tabs (Some d) viewMode = Inr page)
        = ((\<forall>x \<in> set (case nodes d of None \<Rightarrow> [] | Some ns \<Rightarrow> ns)
                  \<union> set (case edges d of None \<Rightarrow> [] | Some es \<Rightarrow> es).
              x \<noteq> JNull \<and> x \<noteq> JUndefined)
           \<and> (if viewMode = StepsMode
               then (\<exists>ss. (case logical_graph_narrative d of None \<Rightarrow> [] | Some n \<Rightarrow> n) = map JStr ss)
               else (\<exists>gd t. graphData (case nodes d of None \<Rightarrow> [] | Some ns \<Rightarrow> ns)
                                       (case edges d of None \<Rightarrow> [] | Some es \<Rightarrow> es) = Inr gd
                        \<and> tabs d gd viewMode = Inr t))))"
  proof (cases "viewMode = StepsMode")
    case True
    have "(\<exists>page. GraphView tabs (Some d) StepsMode = Inr page)
        = ((\<forall>x \<in> set (nodes_of d) \<union> set (edges_of d). x \<noteq> JNull \<and> x \<noteq> JUndefined)
           \<and> (\<exists>ss. narrative_of d = map JStr ss))"
      unfolding GraphView_steps_page by blast
    then show ?thesis using True unfolding nodes_of_def edges_of_def narrative_of_def by simp
  next
    case False
    have "(\<exists>page. GraphView tabs (Some d) viewMode = Inr page)
        = (\<exists>gd t. graphData (nodes_of d) (edges_of d) = Inr gd \<and> tabs d gd viewMode = Inr t)"
      unfolding GraphView_page using False by auto
    moreover have "(\<exists>gd t. graphData (nodes_of d) (edges_of d) = Inr gd \<and> tabs d gd viewMode = Inr t)
        = ((\<forall>x \<in> set (nodes_of d) \<union> set (edges_of d). x \<noteq> JNull \<and> x \<noteq> JUndefined)
           \<and> (\<exists>gd t. graphData (nodes_of d) (edges_of d) = Inr gd \<and> tabs d gd viewMode = Inr t))"
      using graphData_ok[of "nodes_of d" "edges_of d"] by blast
    ultimately show ?thesis using False unfolding nodes_of_def edges_of_def by simp
  qed
  have c3: "(\<forall>page. GraphView tabs (Some d) StepsMode = Inr page \<longrightarrow>
        ((\<exists>cs. Elem ''div'' (lit ''sanity-check-area'') cs \<in> set (elements page))
           = (\<exists>m vs. graph_metadata d = Some m \<and> sanity_violations m = Some vs \<and> vs \<noteq> [])))"
  proof (intro allI impI)
    fix page
    assume "GraphView tabs (Some d) StepsMode = Inr page"
    then obtain ss where page: "page = Elem ''div'' (lit ''graph-view-container'')
                     [view_controls d StepsMode,
                      Elem ''div'' (lit ''graph-content'')
                        [Elem ''div'' (lit ''steps-section'')
                           [steps_header,
                            if ss = [] then no_logic_message
                            else Elem ''div'' (lit ''narrative-list'') (map narrative_item ss)]],
                      metadata_block (graphMetadata_of d)]"
      unfolding GraphView_steps_page by blast
    have "(\<exists>cs. Elem ''div'' (lit ''sanity-check-area'') cs \<in> set (elements page))
        = (\<exists>cs. Elem ''div'' (lit ''sanity-check-area'') cs
                  \<in> set (elements (metadata_block (graphMetadata_of d))))"
      unfolding page using sanity_not_in_controls[of _ d StepsMode] sanity_not_in_steps[of _ ss]
      by (simp add: lit_eq_iff)
    then show "(\<exists>cs. Elem ''div'' (lit ''sanity-check-area'') cs \<in> set (elements page))
           = (\<exists>m vs. graph_metadata d = Some m \<and> sanity_violations m = Some vs \<and> vs \<noteq> [])"
      unfolding sanity_in_metadata .
  qed
  show ?thesis using c1 c2 c3 by (intro conjI)
qed


text \<open>C7 at an analysis result with two warnings, in the steps view.\<close>

theorem sanity_warnings_visible_witness:
  "GraphView sample_tabs (Some sample_data) StepsMode
     = Inr (Elem ''div'' (lit ''graph-view-container'')
              [view_controls sample_data StepsMode,
               Elem ''div'' (lit ''graph-content'')
                 [Elem ''div'' (lit ''steps-section'')
                    [steps_header,
                     Elem ''div'' (lit ''narrative-list'')
                       [narrative_item (lit ''Step 1: Start''),
                        narrative_item (lit ''Step 2: Decision Approved?''),
                        narrative_item ([8627] @ lit '' If Yes: End'')]]],
               Elem ''div'' (lit ''graph-metadata'')
                 [Elem ''div'' (lit ''metadata-header'')
                    [Elem ''h4'' [] [Text (lit ''Accuracy Metrics & Logic'')],
                     Elem ''span'' (lit ''accuracy-badge'') [Text (lit ''High Improvement'')]],
                  Elem ''div'' (lit ''metrics-grid'')
                    [Elem ''div'' (lit ''metric-card'')
                       [Elem ''span'' (lit ''metric-label'') [Text (lit ''Nodes Detected'')],
                        Elem ''span'' (lit ''metric-value'') [Expr (JNum 2)]],
                     Elem ''div'' (lit ''metric-card highlight'')
                       [Elem ''span'' (lit ''metric-label'') [Text (lit ''Noise Reduction'')],
                        Elem ''span'' (lit ''metric-value'') [Expr (JNum 50), Text (lit ''%'')]]],
                  Elem ''div'' (lit ''sanity-check-area'')
                    [Elem ''h5'' (lit ''warning-title'')
                       [Text ([9888, 65039] @ lit '' Logic Sanity Warnings'')],
                     Elem ''ul'' (lit ''violations-list'')
                       [Elem ''li'' [] [Text (lit ''Decision node n1 has fewer than 2 branches'')],
                        Elem ''li'' [] [Text (lit ''No end node'')]]]]])"
  using sanity_warnings_visible [where tabs = sample_tabs and d = sample_data and viewMode = StepsMode]
  by (simp add: GraphView_def graph_content_def steps_section_def graphData_def
      graphData_node_def graphData_link_def nodes_of_def edges_of_def narrative_of_def
      graphMetadata_of_def metadata_block_def sanity_part_def sanity_check_area_def
      sample_data_def sample_tabs_def)


text \<open>
  C8: the page of the steps view holds, for a narrative that is not empty, the list of
  its items, one for each step and in the order of the steps. The class of an item
  ends in \<open>indent-branch\<close> exactly when the step contains the branch arrow U+21B3. The
  marker of a step that starts with \<open>Step\<close> is its text before the first colon (which
  then starts with \<open>Step\<close>); every other step, and no step starting with \<open>Step\<close>, gets
  the bullet U+2022. The page is rendered exactly when no element of \<open>nodes\<close> or
  \<open>edges\<close> is \<open>null\<close> or \<open>undefined\<close> and every step is a string.
\<close>

theorem narrative_item_classification:
  "(\<forall>page. GraphView tabs (Some d) StepsMode = Inr page \<longrightarrow>
      (\<exists>ss controls hdr meta.
          (case logical_graph_narrative d of None \<Rightarrow> [] | Some n \<Rightarrow> n) = map JStr ss
        \<and> page = Elem ''div'' (lit ''graph-view-container'')
                   [controls,
                    Elem ''div'' (lit ''graph-content'')
                      [Elem ''div'' (lit ''steps-section'')
                         [hdr,
                          if ss = []
                          then Elem ''p'' (lit ''no-items'')
                                 [Text (lit ''No logic could be interpreted from this graph.'')]
                          else Elem ''div'' (lit ''narrative-list'')
                                 (map (\<lambda>step.
                            Elem ''div''
                              (lit ''narrative-item ''
                               @ (if \<exists>a b. step = a @ [8627] @ b then lit ''indent-branch'' else []))
                              [Elem ''span'' (lit ''step-marker'')
                                 [Text (if \<exists>r. step = lit ''Step'' @ r
                                        then takeWhile (\<lambda>c. c \<noteq> 58) step else [8226])],
                               Elem ''span'' (lit ''step-content'')
                                 [HighlightText (step_content step)]]) ss)]],
                    meta]))
   \<and> ((\<exists>page. GraphView tabs (Some d) StepsMode = Inr page)
        = ((\<forall>x \<in> set (case nodes d of None \<Rightarrow> [] | Some ns \<Rightarrow> ns)
                  \<union> set (case edges d of None \<Rightarrow> [] | Some es \<Rightarrow> es).
              x \<noteq> JNull \<and> x \<noteq> JUndefined)
           \<and> (\<exists>ss. (case logical_graph_narrative d of None \<Rightarrow> [] | Some n \<Rightarrow> n) = map JStr ss)))
   \<and> ((item_className step = lit ''narrative-item indent-branch'') = (\<exists>a b. step = a @ branch_arrow @ b))
   \<and> ((item_className step = lit ''narrative-item '') = (\<not> (\<exists>a b. step = a @ branch_arrow @ b)))
   \<and> ((\<exists>r. step = lit ''Step'' @ r) \<longrightarrow> step_marker step = takeWhile (\<lambda>c. c \<noteq> colon) step)
   \<and> (prefix (lit ''Step'') (step_marker step) = (\<exists>r. step = lit ''Step'' @ r))
   \<and> ((step_marker step = bullet) = (\<not> (\<exists>r. step = lit ''Step'' @ r)))
   \<and> narrative_item step =
       Elem ''div'' (item_className step)
         [Elem ''span'' (lit ''step-marker'') [Text (step_marker step)],
          Elem ''span'' (lit ''step-content'') [HighlightText (step_content step)]]
   \<and> branch_arrow = [8627] \<and> bullet = [8226] \<and> colon = 58"
proof -
  have p1: "(\<forall>page. GraphView tabs (Some d) StepsMode = Inr page \<longrightarrow>
      (\<exists>ss controls hdr meta.
          (case logical_graph_narrative d of None \<Rightarrow> [] | Some n \<Rightarrow> n) = map JStr ss
        \<and> page = Elem ''div'' (lit ''graph-view-container'')
                   [controls,
                    Elem ''div'' (lit ''graph-content'')
                      [Elem ''div'' (lit ''steps-section'')
                         [hdr,
                          if ss = []
                          then Elem ''p'' (lit ''no-items'')
                                 [Text (lit ''No logic could be interpreted from this graph.'')]
                          else Elem ''div'' (lit ''narrative-list'')
                                 (map (\<lambda>step.
                            Elem ''div''
                              (lit ''narrative-item ''
                               @ (if \<exists>a b. step = a @ [8627] @ b then lit ''indent-branch'' else []))
                              [Elem ''span'' (lit ''step-marker'')
                                 [Text (if \<exists>r. step = lit ''Step'' @ r
                                        then takeWhile (\<lambda>c. c \<noteq> 58) step else [8226])],
                               Elem ''span'' (lit ''step-content'')
                                 [HighlightText (step_content step)]]) ss)]],
                    meta]))"
  proof (intro allI impI)
    fix page
    assume "GraphView tabs (Some d) StepsMode = Inr page"
    then obtain ss where n: "narrative_of d = map JStr ss"
      and page: "page = Elem ''div'' (lit ''graph-view-container'')
                     [view_controls d StepsMode,
                      Elem ''div'' (lit ''graph-content'')
                        [Elem ''div'' (lit ''steps-section'')
                           [steps_header,
                            if ss = [] then no_logic_message
                            else Elem ''div'' (lit ''narrative-list'') (map narrative_item ss)]],
                      metadata_block (graphMetadata_of d)]"
      unfolding GraphView_steps_page by blast
    have it: "narrative_item = (\<lambda>step.
                            Elem ''div''
                              (lit ''narrative-item ''
                               @ (if \<exists>a b. step = a @ [8627] @ b then lit ''indent-branch'' else []))
                              [Elem ''span'' (lit ''step-marker'')
                                 [Text (if \<exists>r. step = lit ''Step'' @ r
                                        then takeWhile (\<lambda>c. c \<noteq> 58) step else [8226])],
                               Elem ''span'' (lit ''step-content'')
                                 [HighlightText (step_content step)]])"
      by (rule ext) (rule narrative_item_explicit)
    have "(case logical_graph_narrative d of None \<Rightarrow> [] | Some n \<Rightarrow> n) = map JStr ss
        \<and> page = Elem ''div'' (lit ''graph-view-container'')
                   [view_controls d StepsMode,
                    Elem ''div'' (lit ''graph-content'')
                      [Elem ''div'' (lit ''steps-section'')
                         [steps_header,
                          if ss = []
                          then Elem ''p'' (lit ''no-items'')
                                 [Text (lit ''No logic could be interpreted from this graph.'')]
                          else Elem ''div'' (lit ''narrative-list'')
                                 (map (\<lambda>step.
                            Elem ''div''
                              (lit ''narrative-item ''
                               @ (if \<exists>a b. step = a @ [8627] @ b then lit ''indent-branch'' else []))
                              [Elem ''span'' (lit ''step-marker'')
                                 [Text (if \<exists>r. step = lit ''Step'' @ r
                                        then takeWhile (\<lambda>c. c \<noteq> 58) step else [8226])],
                               Elem ''span'' (lit ''step-content'')
                                 [HighlightText (step_content step)]]) ss)]],
                    metadata_block (graphMetadata_of d)]"
      using n unfolding page it[symmetric] no_logic_message_def narrative_of_def by simp
    then show "\<exists>ss controls hdr meta.
          (case logical_graph_narrative d of None \<Rightarrow> [] | Some n \<Rightarrow> n) = map JStr ss
        \<and> page = Elem ''div'' (lit ''graph-view-container'')
                   [controls,
                    Elem ''div'' (lit ''graph-content'')
                      [Elem ''div'' (lit ''steps-section'')
                         [hdr,
                          if ss = []
                          then Elem ''p'' (lit ''no-items'')
                                 [Text (lit ''No logic could be interpreted from this graph.'')]
                          else Elem ''div'' (lit ''narrative-list'')
                                 (map (\<lambda>step.
                            Elem ''div''
                              (lit ''narrative-item ''
                               @ (if \<exists>a b. step = a @ [8627] @ b then lit ''indent-branch'' else []))
                              [Elem ''span'' (lit ''step-marker'')
                                 [Text (if \<exists>r. step = lit ''Step'' @ r
                                        then takeWhile (\<lambda>c. c \<noteq> 58) step else [8226])],
                               Elem ''span'' (lit ''step-content'')
                                 [HighlightText (step_content step)]]) ss)]],
                    meta]"
      by (intro exI[of _ ss] exI[of _ "view_controls d StepsMode"] exI[of _ steps_header]
          exI[of _ "metadata_block (graphMetadata_of d)"])
  qed
  have p2: "((\<exists>page. GraphView tabs (Some d) StepsMode = Inr page)
        = ((\<forall>x \<in> set (case nodes d of None \<Rightarrow> [] | Some ns \<Rightarrow> ns)
                  \<union> set (case edges d of None \<Rightarrow> [] | Some es \<Rightarrow> es).
              x \<noteq> JNull \<and> x \<noteq> JUndefined)
           \<and> (\<exists>ss. (case logical_graph_narrative d of None \<Rightarrow> [] | Some n \<Rightarrow> n) = map JStr ss)))"
  proof -
    have "(\<exists>page. GraphView tabs (Some d) StepsMode = Inr page)
        = ((\<forall>x \<in> set (nodes_of d) \<union> set (edges_of d). x \<noteq> JNull \<and> x \<noteq> JUndefined)
           \<and> (\<exists>ss. narrative_of d = map JStr ss))"
      unfolding GraphView_steps_page by blast
    then show ?thesis unfolding nodes_of_def edges_of_def narrative_of_def by simp
  qed
  have cls: "item_className step =
      (if (\<exists>a b. step = a @ branch_arrow @ b) then lit ''narrative-item indent-branch''
       else lit ''narrative-item '')"
    by (simp add: item_className_def js_includes_iff lit_def)
  have ne: "lit ''narrative-item indent-branch'' \<noteq> lit ''narrative-item ''"
    by (simp add: lit_eq_iff)
  have mk: "step_marker step =
      (if (\<exists>r. step = lit ''Step'' @ r) then takeWhile (\<lambda>c. c \<noteq> colon) step else bullet)"
    by (simp add: step_marker_def js_startsWith_iff js_split_hd)
  have tw: "\<And>r. takeWhile (\<lambda>c. c \<noteq> colon) (lit ''Step'' @ r) = lit ''Step'' @ takeWhile (\<lambda>c. c \<noteq> colon) r"
    by (simp add: lit_def colon_def)
  have nb: "\<not> prefix (lit ''Step'') bullet"
    by (simp add: lit_def bullet_def)
  have pb: "\<And>r. lit ''Step'' @ r \<noteq> bullet"
    by (simp add: lit_def bullet_def)
  have c1: "(item_className step = lit ''narrative-item indent-branch'') = (\<exists>a b. step = a @ branch_arrow @ b)"
    using cls ne by (auto split: if_splits)
  have c2: "(item_className step = lit ''narrative-item '') = (\<not> (\<exists>a b. step = a @ branch_arrow @ b))"
    using cls ne by (auto split: if_splits)
  have c3: "(\<exists>r. step = lit ''Step'' @ r) \<longrightarrow> step_marker step = takeWhile (\<lambda>c. c \<noteq> colon) step"
    by (simp add: mk)
  have c45: "prefix (lit ''Step'') (step_marker step) = (\<exists>r. step = lit ''Step'' @ r)
      \<and> (step_marker step = bullet) = (\<not> (\<exists>r. step = lit ''Step'' @ r))"
  proof (cases "\<exists>r. step = lit ''Step'' @ r")
    case True
    then obtain r where r: "step = lit ''Step'' @ r" by blast
    have "step_marker step = lit ''Step'' @ takeWhile (\<lambda>c. c \<noteq> colon) r"
      using mk True tw[of r] r by simp
    then show ?thesis using True pb by simp
  next
    case False
    then have "step_marker step = bullet" using mk by simp
    then show ?thesis using False nb by simp
  qed
  have c6: "narrative_item step =
       Elem ''div'' (item_className step)
         [Elem ''span'' (lit ''step-marker'') [Text (step_marker step)],
          Elem ''span'' (lit ''step-content'') [HighlightText (step_content step)]]"
    by (simp add: narrative_item_def)
  have c7: "branch_arrow = [8627]" "bullet = [8226]" "colon = 58"
    by (simp_all add: branch_arrow_def bullet_def colon_def)
  show ?thesis
    by (intro conjI) (rule p1 p2 c1 c2 c3 conjunct1[OF c45] conjunct2[OF c45] c6 c7)+
qed

text \<open>C8 at an analysis result with two steps and a branch line.\<close>

theorem narrative_item_classification_witness:
  "GraphView sample_tabs (Some sample_data) StepsMode
     = Inr (Elem ''div'' (lit ''graph-view-container'')
              [view_controls sample_data StepsMode,
               Elem ''div'' (lit ''graph-content'')
                 [Elem ''div'' (lit ''steps-section'')
                    [steps_header,
                     Elem ''div'' (lit ''narrative-list'')
                       [Elem ''div'' (lit ''narrative-item '')
                          [Elem ''span'' (lit ''step-marker'') [Text (lit ''Step 1'')],
                           Elem ''span'' (lit ''step-content'') [HighlightText (lit ''Start'')]],
                        Elem ''div'' (lit ''narrative-item '')
                          [Elem ''span'' (lit ''step-marker'') [Text (lit ''Step 2'')],
                           Elem ''span'' (lit ''step-content'')
                             [HighlightText (lit ''Decision Approved?'')]],
                        Elem ''div'' (lit ''narrative-item indent-branch'')
                          [Elem ''span'' (lit ''step-marker'') [Text [8226]],
                           Elem ''span'' (lit ''step-content'') [HighlightText (lit ''End'')]]]]],
               metadata_block (graphMetadata_of sample_data)])
   \<and> step_marker (lit ''Step 1: Start'') = lit ''Step 1''
   \<and> item_className (lit ''Step 1: Start'') = lit ''narrative-item ''
   \<and> step_marker (lit ''   '' @ branch_arrow @ lit '' If Yes: Approve'') = bullet
   \<and> item_className (lit ''   '' @ branch_arrow @ lit '' If Yes: Approve'') = lit ''narrative-item indent-branch''"
proof -
  have e: "GraphView sample_tabs (Some sample_data) StepsMode
     = Inr (Elem ''div'' (lit ''graph-view-container'')
              [view_controls sample_data StepsMode,
               Elem ''div'' (lit ''graph-content'')
                 [Elem ''div'' (lit ''steps-section'')
                    [steps_header,
                     Elem ''div'' (lit ''narrative-list'')
                       [Elem ''div'' (lit ''narrative-item '')
                          [Elem ''span'' (lit ''step-marker'') [Text (lit ''Step 1'')],
                           Elem ''span'' (lit ''step-content'') [HighlightText (lit ''Start'')]],
                        Elem ''div'' (lit ''narrative-item '')
                          [Elem ''span'' (lit ''step-marker'') [Text (lit ''Step 2'')],
                           Elem ''span'' (lit ''step-content'')
                             [HighlightText (lit ''Decision Approved?'')]],
                        Elem ''div'' (lit ''narrative-item indent-branch'')
                          [Elem ''span'' (lit ''step-marker'') [Text [8226]],
                           Elem ''span'' (lit ''step-content'') [HighlightText (lit ''End'')]]]]],
               metadata_block (graphMetadata_of sample_data)])
   \<and> step_marker (lit ''Step 1: Start'') = lit ''Step 1''
   \<and> item_className (lit ''Step 1: Start'') = lit ''narrative-item ''
   \<and> step_marker (lit ''   '' @ branch_arrow @ lit '' If Yes: Approve'') = bullet
   \<and> item_className (lit ''   '' @ branch_arrow @ lit '' If Yes: Approve'') = lit ''narrative-item indent-branch''"
    by (simp add: GraphView_def graph_content_def steps_section_def graphData_def
        graphData_node_def graphData_link_def nodes_of_def edges_of_def narrative_of_def
        narrative_item_def step_content_def js_trim_def js_whitespace_def
        sample_data_def sample_tabs_def
        step_marker_def item_className_def js_startsWith_def lit_def colon_def
        branch_arrow_def bullet_def)
  show ?thesis
    using narrative_item_classification [where tabs = sample_tabs and d = sample_data
        and step = "lit ''Step 1: Start''"] e
    by blast
qed


subsection \<open>Node reduction\<close>

text \<open>
  C4: \<open>node_reduction_pct\<close> is the quotient \<open>(raw - final) / raw * 100\<close> clamped to
  [0,100]: it always lies in [0,100]; it is 0 when the raw shape count is 0 and when no
  shape was filtered or merged (the counts are equal); with a positive raw count and
  no more nodes than shapes it is the quotient itself.
\<close>

theorem node_reduction_pct_range:
  "0 \<le> node_reduction_pct r f \<and> node_reduction_pct r f \<le> 100
   \<and> node_reduction_pct 0 f = 0
   \<and> node_reduction_pct r r = 0
   \<and> (0 < r \<longrightarrow> node_reduction_pct r f
         = max 0 (min 100 ((real r - real f) / real r * 100)))
   \<and> (0 < r \<and> f \<le> r \<longrightarrow> node_reduction_pct r f = (real r - real f) / real r * 100)
   \<and> (r < f \<longrightarrow> node_reduction_pct r f = 0)"
proof -
  have rng: "0 \<le> node_reduction_pct r f \<and> node_reduction_pct r f \<le> 100"
    by (simp add: node_reduction_pct_def)
  have z: "node_reduction_pct 0 f = 0" by (simp add: node_reduction_pct_def)
  have same: "node_reduction_pct r r = 0" by (simp add: node_reduction_pct_def)
  have form: "0 < r \<longrightarrow> node_reduction_pct r f
         = max 0 (min 100 ((real r - real f) / real r * 100))"
    by (simp add: node_reduction_pct_def)
  have exact: "0 < r \<and> f \<le> r \<longrightarrow> node_reduction_pct r f = (real r - real f) / real r * 100"
  proof
    assume h: "0 < r \<and> f \<le> r"
    define x where "x = (real r - real f) / real r"
    have a: "0 \<le> x" using h unfolding x_def by simp
    have "real r - real f \<le> real r" by simp
    then have b: "x \<le> 1" using h unfolding x_def by (simp add: divide_le_eq_1)
    have "0 \<le> x * 100" using a by simp
    moreover have "x * 100 \<le> 100" using b by simp
    ultimately have "max 0 (min 100 (x * 100)) = x * 100" by simp
    then show "node_reduction_pct r f = (real r - real f) / real r * 100"
      using h unfolding x_def by (simp add: node_reduction_pct_def)
  qed
  have neg: "r < f \<longrightarrow> node_reduction_pct r f = 0"
  proof
    assume h: "r < f"
    define x where "x = (real r - real f) / real r"
    have "x \<le> 0" using h unfolding x_def by (simp add: divide_le_0_iff)
    then have "x * 100 \<le> 0" by simp
    then have "max 0 (min 100 (x * 100)) = 0" by simp
    then show "node_reduction_pct r f = 0"
      unfolding x_def by (simp add: node_reduction_pct_def)
  qed
  show ?thesis using rng z same form exact neg by blast
qed

text \<open>C4 at four shapes and three nodes, at more nodes than shapes, and at no shapes.\<close>

theorem node_reduction_pct_range_witness:
  "node_reduction_pct 4 3 = 25 \<and> node_reduction_pct 3 4 = 0 \<and> node_reduction_pct 0 0 = 0"
  using node_reduction_pct_range [of 4 3] node_reduction_pct_range [of 3 4]
  by (simp add: node_reduction_pct_def)

subsection \<open>Thresholds of the detector\<close>

lemma merge_into_inv:
  assumes "\<forall>c \<in> set cs. c \<noteq> [] \<and> set c \<subseteq> A" and "s \<in> A"
  shows "\<forall>c \<in> set (merge_into m s cs). c \<noteq> [] \<and> set c \<subseteq> A"
  using assms by (induction cs) auto

lemma fold_merge_into_inv:
  assumes "\<forall>c \<in> set acc. c \<noteq> [] \<and> set c \<subseteq> A" and "set xs \<subseteq> A"
  shows "\<forall>c \<in> set (fold (merge_into m) xs acc). c \<noteq> [] \<and> set c \<subseteq> A"
  using assms
proof (induction xs arbitrary: acc)
  case Nil
  then show ?case by simp
next
  case (Cons x xs)
  have "\<forall>c \<in> set (merge_into m x acc). c \<noteq> [] \<and> set c \<subseteq> A"
    using merge_into_inv[of acc A x m] Cons.prems by simp
  then have "\<forall>c \<in> set (fold (merge_into m) xs (merge_into m x acc)). c \<noteq> [] \<and> set c \<subseteq> A"
    using Cons.IH[of "merge_into m x acc"] Cons.prems(2) by simp
  then show ?case by simp
qed

lemma components_inv: "c \<in> set (components m xs) \<Longrightarrow> c \<noteq> [] \<and> set c \<subseteq> set xs"
  unfolding components_def using fold_merge_into_inv[of "[]" "set xs" xs m] by simp

lemma max_conf_ge: "m \<le> max_conf m ss"
proof (induction ss arbitrary: m)
  case Nil
  then show ?case by simp
next
  case (Cons s ss)
  have "max m (conf s) \<le> max_conf (max m (conf s)) ss" by (rule Cons.IH)
  then show ?case by simp
qed

lemma collapse_conf:
  assumes "collapse c = Some s'" and "\<forall>s \<in> set c. t \<le> conf s"
  shows "t \<le> conf s'"
proof (cases c)
  case Nil
  then show ?thesis using assms by simp
next
  case (Cons a as)
  show ?thesis
  proof (cases as)
    case Nil
    then show ?thesis using assms Cons by simp
  next
    case (Cons b bs)
    have "t \<le> conf a" using assms \<open>c = a # as\<close> by simp
    also have "conf a \<le> max_conf (conf a) as" by (rule max_conf_ge)
    finally show ?thesis using assms \<open>c = a # as\<close> Cons by auto
  qed
qed

lemma merge_step_conf:
  assumes "s' \<in> set (merge_step c xs)" and "\<forall>s \<in> set xs. t \<le> conf s"
  shows "t \<le> conf s'"
proof -
  obtain cl where cl: "cl \<in> set (components (mergeable c) xs)" "collapse cl = Some s'"
    using assms(1) unfolding merge_step_def List.map_filter_def by auto
  have "set cl \<subseteq> set xs" using components_inv[OF cl(1)] by simp
  then show ?thesis using collapse_conf[OF cl(2)] assms(2) by blast
qed

text \<open>
  C1: for every input sequence of shapes and every configuration, every node the Shape
  Detector and Merger puts out has a confidence of at least the guard threshold and an
  area of at least the noise threshold.
\<close>

theorem detect_nodes_thresholds:
  "\<forall>n \<in> set (detect_nodes c shapes).
      guard_threshold c \<le> confidence n \<and> noise_threshold c \<le> area n"
proof
  fix n assume n: "n \<in> set (detect_nodes c shapes)"
  have ar: "noise_threshold c \<le> area n"
    using n unfolding detect_nodes_def noise_flush_def by simp
  obtain p where p: "p \<in> set (enumerate 0 (merge_step c (confidence_guard c shapes)))" "n = to_node p"
    using n unfolding detect_nodes_def noise_flush_def by auto
  have "snd p \<in> set (merge_step c (confidence_guard c shapes))"
    using p(1) unfolding in_set_enumerate_eq by (metis add.right_neutral diff_zero nth_mem)
  moreover have "\<forall>s \<in> set (confidence_guard c shapes). guard_threshold c \<le> conf s"
    unfolding confidence_guard_def by simp
  ultimately have "guard_threshold c \<le> conf (snd p)"
    using merge_step_conf by blast
  then have "guard_threshold c \<le> confidence n"
    using p(2) by (simp add: to_node_def)
  then show "guard_threshold c \<le> confidence n \<and> noise_threshold c \<le> area n"
    using ar by simp
qed

lemmas detect_eval =
  detect_nodes_def noise_flush_def confidence_guard_def merge_step_def components_def
  mergeable_def touches_def to_node_def default_config_def bbox_area_def bbox_center_def
  diagonal_sq_def intersection_area_def center_dist_sq_def enumerate_eq_zip power2_eq_square

text \<open>
  C1 at the default thresholds: a shape of confidence 0.2 and area 50 and a shape of
  area 200 are dropped, a circle of confidence 0.9 and area 800 is kept.
\<close>

theorem detect_nodes_thresholds_witness:
  "detect_nodes (default_config (1/2) (1/2))
     [\<lparr>kind = Circle, box = \<lparr>x_min = 0, y_min = 0, x_max = 8, y_max = 8\<rparr>, shape_area = 50, conf = 0.2\<rparr>,
      \<lparr>kind = Circle, box = \<lparr>x_min = 100, y_min = 100, x_max = 132, y_max = 132\<rparr>, shape_area = 800, conf = 0.9\<rparr>,
      \<lparr>kind = Rectangle, box = \<lparr>x_min = 300, y_min = 100, x_max = 310, y_max = 120\<rparr>, shape_area = 200, conf = 0.8\<rparr>]
   = [\<lparr>node_id = 0, shape = Circle, node_class = CUnknown,
       geometry = \<lparr>x_min = 100, y_min = 100, x_max = 132, y_max = 132\<rparr>, center = (116, 116),
       area = 800, confidence = 0.9, labels = []\<rparr>]
   \<and> guard_threshold (default_config (1/2) (1/2)) \<le> 0.9
   \<and> noise_threshold (default_config (1/2) (1/2)) \<le> 800"
  using detect_nodes_thresholds
    [of "default_config (1/2) (1/2)"
     "[\<lparr>kind = Circle, box = \<lparr>x_min = 0, y_min = 0, x_max = 8, y_max = 8\<rparr>, shape_area = 50, conf = 0.2\<rparr>,
      \<lparr>kind = Circle, box = \<lparr>x_min = 100, y_min = 100, x_max = 132, y_max = 132\<rparr>, shape_area = 800, conf = 0.9\<rparr>,
      \<lparr>kind = Rectangle, box = \<lparr>x_min = 300, y_min = 100, x_max = 310, y_max = 120\<rparr>, shape_area = 200, conf = 0.8\<rparr>]"]
  by (simp add: detect_eval)

subsection \<open>The narrative of a graph with no start node\<close>

lemma no_logic_not_in_items:
  "no_logic_message \<notin> \<Union> (set ` elements ` narrative_item ` set ss)"
  by (auto simp: narrative_item_def no_logic_message_def)

lemma no_logic_not_in_controls: "no_logic_message \<notin> set (elements (view_controls d viewMode))"
  by (simp add: view_controls_def control_btn_def no_logic_message_def)

lemma no_logic_not_in_metadata: "no_logic_message \<notin> set (elements (metadata_block m))"
  by (auto simp: metadata_block_def sanity_part_def sanity_check_area_def no_logic_message_def
      split: option.splits)

lemma no_logic_in_page:
  assumes "GraphView tabs (Some d) StepsMode = Inr page"
  shows "(no_logic_message \<in> set (elements page)) = (narrative_of d = [])"
proof -
  obtain ss where n: "narrative_of d = map JStr ss"
    and page: "page = Elem ''div'' (lit ''graph-view-container'')
                     [view_controls d StepsMode,
                      Elem ''div'' (lit ''graph-content'')
                        [Elem ''div'' (lit ''steps-section'')
                           [steps_header,
                            if ss = [] then no_logic_message
                            else Elem ''div'' (lit ''narrative-list'') (map narrative_item ss)]],
                      metadata_block (graphMetadata_of d)]"
    using assms unfolding GraphView_steps_page by blast
  have h: "no_logic_message \<notin> set (elements steps_header)"
    by (simp add: steps_header_def no_logic_message_def)
  have o: "no_logic_message \<noteq> Elem ''div'' (lit ''graph-view-container'')
                     [view_controls d StepsMode,
                      Elem ''div'' (lit ''graph-content'')
                        [Elem ''div'' (lit ''steps-section'')
                           [steps_header,
                            if ss = [] then no_logic_message
                            else Elem ''div'' (lit ''narrative-list'') (map narrative_item ss)]],
                      metadata_block (graphMetadata_of d)]"
    "\<And>cs. no_logic_message \<noteq> Elem ''div'' (lit ''graph-content'') cs"
    "\<And>cs. no_logic_message \<noteq> Elem ''div'' (lit ''steps-section'') cs"
    "\<And>cs. no_logic_message \<noteq> Elem ''div'' (lit ''narrative-list'') cs"
    by (simp_all add: no_logic_message_def)
  have "(no_logic_message \<in> set (elements page)) = (ss = [])"
  proof (cases "ss = []")
    case True
    then show ?thesis unfolding page by (simp add: elements_self)
  next
    case False
    then show ?thesis
      unfolding page
      using h o no_logic_not_in_controls[of d StepsMode]
        no_logic_not_in_metadata[of "graphMetadata_of d"] no_logic_not_in_items[of ss]
      by simp
  qed
  then show ?thesis using n by simp
qed

lemma least_id_in: "least_id b vs \<in> set (b # vs)"
  by (induction vs arbitrary: b) auto

lemma start_node_None: "(start_node g = None) = (\<forall>v \<in> set (g_nodes g). node_class v \<noteq> CStart)"
proof -
  have "(start_node g = None) = (filter (\<lambda>v. node_class v = CStart) (g_nodes g) = [])"
    unfolding start_node_def by (simp split: list.splits)
  then show ?thesis by (simp add: filter_empty_conv)
qed

lemma start_node_in: "start_node g = Some s \<Longrightarrow> s \<in> set (g_nodes g)"
proof -
  assume a: "start_node g = Some s"
  then obtain b vs where f: "filter (\<lambda>v. node_class v = CStart) (g_nodes g) = b # vs" and s: "s = least_id b vs"
    unfolding start_node_def by (auto split: list.splits)
  have "s \<in> set (b # vs)" using s least_id_in by simp
  then have "s \<in> set (filter (\<lambda>v. node_class v = CStart) (g_nodes g))" using f by simp
  then show ?thesis by simp
qed

lemma find_node_exists: "s \<in> set (g_nodes g) \<Longrightarrow> \<exists>nd. find_node g (node_id s) = Some nd"
  unfolding find_node_def by (cases "find (\<lambda>n. node_id n = node_id s) (g_nodes g)") (auto simp: find_None_iff)

lemma narrative_empty_iff:
  "(generate_narrative w g = []) = (\<forall>v \<in> set (g_nodes g). node_class v \<noteq> CStart)"
proof (cases "start_node g")
  case None
  then have "emitted g = []" by (simp add: emitted_def)
  then have "generate_narrative w g = []" by (simp add: generate_narrative_def)
  then show ?thesis using None start_node_None[of g] by simp
next
  case (Some s)
  obtain nd where nd: "find_node g (node_id s) = Some nd"
    using find_node_exists[OF start_node_in[OF Some]] by blast
  have "emitted g \<noteq> []" using Some nd by (simp add: emitted_def)
  then obtain p ps where "emitted g = p # ps" by (cases "emitted g") auto
  then have "generate_narrative w g \<noteq> []" by (simp add: generate_narrative_def node_lines_def)
  then show ?thesis using Some start_node_None[of g] by simp
qed

text \<open>
  C2: the narrative of a graph is empty, a list like any other, exactly when the graph
  has no node classified \<open>start\<close>. The page of the steps view holds the message that no
  logic could be interpreted exactly when the narrative it is given has length 0; the
  page is rendered exactly when no element of \<open>nodes\<close> or \<open>edges\<close> is \<open>null\<close> or
  \<open>undefined\<close> and every step is a string. Given the generator's narrative, the page is
  rendered and holds the message exactly when the graph has no start node.
\<close>

theorem no_start_empty_narrative:
  "((generate_narrative w g = []) = (\<forall>v \<in> set (g_nodes g). node_class v \<noteq> CStart))
   \<and> (\<forall>page. GraphView tabs (Some d) StepsMode = Inr page \<longrightarrow>
        ((Elem ''p'' (lit ''no-items'') [Text (lit ''No logic could be interpreted from this graph.'')]
            \<in> set (elements page))
         = (length (case logical_graph_narrative d of None \<Rightarrow> [] | Some n \<Rightarrow> n) = 0)))
   \<and> ((\<exists>page. GraphView tabs (Some d) StepsMode = Inr page)
        = ((\<forall>x \<in> set (case nodes d of None \<Rightarrow> [] | Some ns \<Rightarrow> ns)
                  \<union> set (case edges d of None \<Rightarrow> [] | Some es \<Rightarrow> es).
              x \<noteq> JNull \<and> x \<noteq> JUndefined)
           \<and> (\<exists>ss. (case logical_graph_narrative d of None \<Rightarrow> [] | Some n \<Rightarrow> n) = map JStr ss)))
   \<and> ((\<forall>x \<in> set (case nodes d of None \<Rightarrow> [] | Some ns \<Rightarrow> ns)
                  \<union> set (case edges d of None \<Rightarrow> [] | Some es \<Rightarrow> es).
              x \<noteq> JNull \<and> x \<noteq> JUndefined) \<longrightarrow>
        (\<exists>page. GraphView tabs
                   (Some (d\<lparr>logical_graph_narrative := Some (map JStr (generate_narrative w g))\<rparr>))
                   StepsMode = Inr page
           \<and> ((Elem ''p'' (lit ''no-items'') [Text (lit ''No logic could be interpreted from this graph.'')]
                  \<in> set (elements page))
               = (\<forall>v \<in> set (g_nodes g). node_class v \<noteq> CStart))))"
proof -
  have a: "((generate_narrative w g = []) = (\<forall>v \<in> set (g_nodes g). node_class v \<noteq> CStart))"
    by (rule narrative_empty_iff)
  have b: "(\<forall>page. GraphView tabs (Some d) StepsMode = Inr page \<longrightarrow>
        ((Elem ''p'' (lit ''no-items'') [Text (lit ''No logic could be interpreted from this graph.'')]
            \<in> set (elements page))
         = (length (case logical_graph_narrative d of None \<Rightarrow> [] | Some n \<Rightarrow> n) = 0)))"
    using no_logic_in_page[of tabs d] unfolding no_logic_message_def narrative_of_def by simp
  have c: "((\<exists>page. GraphView tabs (Some d) StepsMode = Inr page)
        = ((\<forall>x \<in> set (case nodes d of None \<Rightarrow> [] | Some ns \<Rightarrow> ns)
                  \<union> set (case edges d of None \<Rightarrow> [] | Some es \<Rightarrow> es).
              x \<noteq> JNull \<and> x \<noteq> JUndefined)
           \<and> (\<exists>ss. (case logical_graph_narrative d of None \<Rightarrow> [] | Some n \<Rightarrow> n) = map JStr ss)))"
  proof -
    have "(\<exists>page. GraphView tabs (Some d) StepsMode = Inr page)
        = ((\<forall>x \<in> set (nodes_of d) \<union> set (edges_of d). x \<noteq> JNull \<and> x \<noteq> JUndefined)
           \<and> (\<exists>ss. narrative_of d = map JStr ss))"
      unfolding GraphView_steps_page by blast
    then show ?thesis unfolding nodes_of_def edges_of_def narrative_of_def by simp
  qed
  have d: "((\<forall>x \<in> set (case nodes d of None \<Rightarrow> [] | Some ns \<Rightarrow> ns)
                  \<union> set (case edges d of None \<Rightarrow> [] | Some es \<Rightarrow> es).
              x \<noteq> JNull \<and> x \<noteq> JUndefined) \<longrightarrow>
        (\<exists>page. GraphView tabs
                   (Some (d\<lparr>logical_graph_narrative := Some (map JStr (generate_narrative w g))\<rparr>))
                   StepsMode = Inr page
           \<and> ((Elem ''p'' (lit ''no-items'') [Text (lit ''No logic could be interpreted from this graph.'')]
                  \<in> set (elements page))
               = (\<forall>v \<in> set (g_nodes g). node_class v \<noteq> CStart))))"
  proof
    assume nn: "(\<forall>x \<in> set (case nodes d of None \<Rightarrow> [] | Some ns \<Rightarrow> ns)
                  \<union> set (case edges d of None \<Rightarrow> [] | Some es \<Rightarrow> es).
              x \<noteq> JNull \<and> x \<noteq> JUndefined)"
    define d' where "d' = d\<lparr>logical_graph_narrative := Some (map JStr (generate_narrative w g))\<rparr>"
    have n': "narrative_of d' = map JStr (generate_narrative w g)"
      by (simp add: d'_def narrative_of_def)
    have "\<forall>x \<in> set (nodes_of d') \<union> set (edges_of d'). x \<noteq> JNull \<and> x \<noteq> JUndefined"
      using nn by (simp add: d'_def nodes_of_def edges_of_def)
    then have "\<exists>page. GraphView tabs (Some d') StepsMode = Inr page"
      using n' unfolding GraphView_steps_page by blast
    then obtain page where p: "GraphView tabs (Some d') StepsMode = Inr page" by blast
    have "(no_logic_message \<in> set (elements page)) = (generate_narrative w g = [])"
      using no_logic_in_page[OF p] n' by simp
    then have "GraphView tabs (Some d') StepsMode = Inr page
           \<and> ((Elem ''p'' (lit ''no-items'') [Text (lit ''No logic could be interpreted from this graph.'')]
                  \<in> set (elements page))
               = (\<forall>v \<in> set (g_nodes g). node_class v \<noteq> CStart))"
      using p a unfolding no_logic_message_def by simp
    then show "\<exists>page. GraphView tabs
                   (Some (d\<lparr>logical_graph_narrative := Some (map JStr (generate_narrative w g))\<rparr>))
                   StepsMode = Inr page
           \<and> ((Elem ''p'' (lit ''no-items'') [Text (lit ''No logic could be interpreted from this graph.'')]
                  \<in> set (elements page))
               = (\<forall>v \<in> set (g_nodes g). node_class v \<noteq> CStart))"
      unfolding d'_def by (rule exI[of _ page])
  qed
  show ?thesis by (intro conjI) (rule a b c d)+
qed


text \<open>C2 at a graph of a process and an end node, with no start node.\<close>

theorem no_start_empty_narrative_witness:
  "generate_narrative label_wording headless_graph = []
   \<and> GraphView sample_tabs
        (Some (sample_data\<lparr>logical_graph_narrative :=
                              Some (map JStr (generate_narrative label_wording headless_graph))\<rparr>))
        StepsMode
      = Inr (Elem ''div'' (lit ''graph-view-container'')
               [view_controls sample_data StepsMode,
                Elem ''div'' (lit ''graph-content'')
                  [Elem ''div'' (lit ''steps-section'')
                     [steps_header,
                      Elem ''p'' (lit ''no-items'') [Text (lit ''No logic could be interpreted from this graph.'')]]],
                metadata_block (graphMetadata_of sample_data)])"
proof -
  have n: "generate_narrative label_wording headless_graph = []"
    by (simp add: generate_narrative_def emitted_def start_node_def headless_graph_def
        labelled_node_def)
  have e: "GraphView sample_tabs (Some (sample_data\<lparr>logical_graph_narrative := Some []\<rparr>)) StepsMode
      = Inr (Elem ''div'' (lit ''graph-view-container'')
               [view_controls sample_data StepsMode,
                Elem ''div'' (lit ''graph-content'')
                  [Elem ''div'' (lit ''steps-section'')
                     [steps_header,
                      Elem ''p'' (lit ''no-items'') [Text (lit ''No logic could be interpreted from this graph.'')]]],
                metadata_block (graphMetadata_of sample_data)])"
    by (simp add: GraphView_def graph_content_def steps_section_def graphData_def
        graphData_node_def graphData_link_def nodes_of_def edges_of_def narrative_of_def
        graphMetadata_of_def view_controls_def no_logic_message_def sample_data_def
        sample_tabs_def)
  show ?thesis
    using no_start_empty_narrative [where w = label_wording and g = headless_graph
        and tabs = sample_tabs and d = sample_data] n e
    by simp
qed

subsection \<open>The branches of a decision node\<close>

lemma sorted_three:
  fixes f :: "'a \<Rightarrow> nat"
  assumes "sorted (map f ys)" and "\<forall>x \<in> set ys. f x \<le> 2"
  shows "ys = filter (\<lambda>x. f x = 0) ys @ filter (\<lambda>x. f x = 1) ys @ filter (\<lambda>x. f x = 2) ys"
  using assms
proof (induction ys)
  case Nil
  then show ?case by simp
next
  case (Cons y ys)
  have ih: "ys = filter (\<lambda>x. f x = 0) ys @ filter (\<lambda>x. f x = 1) ys @ filter (\<lambda>x. f x = 2) ys"
    using Cons.IH Cons.prems by simp
  have le: "\<forall>z \<in> set ys. f y \<le> f z" using Cons.prems(1) by simp
  have y2: "f y \<le> 2" using Cons.prems(2) by simp
  consider "f y = 0" | "f y = 1" | "f y = 2" using y2 by linarith
  then show ?case
  proof cases
    case 1
    then show ?thesis using ih by simp
  next
    case 2
    then have "filter (\<lambda>x. f x = 0) ys = []" using le by (auto simp: filter_empty_conv)
    then show ?thesis using 2 ih by simp
  next
    case 3
    then have "filter (\<lambda>x. f x = 0) ys = []" "filter (\<lambda>x. f x = 1) ys = []"
      using le by (auto simp: filter_empty_conv)
    then show ?thesis using 3 ih by simp
  qed
qed

lemma sort_key_three:
  fixes f :: "'a \<Rightarrow> nat"
  assumes "\<forall>x \<in> set xs. f x \<le> 2"
  shows "sort_key f xs
           = filter (\<lambda>x. f x = 0) xs @ filter (\<lambda>x. f x = 1) xs @ filter (\<lambda>x. f x = 2) xs"
proof -
  have "sort_key f xs = filter (\<lambda>x. f x = 0) (sort_key f xs)
      @ filter (\<lambda>x. f x = 1) (sort_key f xs) @ filter (\<lambda>x. f x = 2) (sort_key f xs)"
    using sorted_three[of f "sort_key f xs"] assms by (simp add: sorted_sort_key)
  then show ?thesis by (simp add: sort_key_stable)
qed

lemma three_filter_two:
  assumes "xs = [e1, e2] \<or> xs = [e2, e1]"
    and "P e1" "\<not> Q e1" "\<not> R e1" "\<not> P e2" "Q e2" "\<not> R e2"
  shows "filter P xs @ filter Q xs @ filter R xs = [e1, e2]"
  using assms by auto

lemma polarity_rank_le: "polarity_rank p \<le> 2"
  by (cases p) simp_all

lemma polarity_rank_explicit:
  "(polarity_rank (classify_polarity l) = 0)
     = (case l of None \<Rightarrow> False
        | Some t \<Rightarrow> map (\<lambda>c. if 65 \<le> c \<and> c \<le> 90 then c + 32 else c) t \<in> {lit ''yes'', lit ''true''})"
  "(polarity_rank (classify_polarity l) = 1)
     = (case l of None \<Rightarrow> False
        | Some t \<Rightarrow> map (\<lambda>c. if 65 \<le> c \<and> c \<le> 90 then c + 32 else c) t \<in> {lit ''no'', lit ''false''})"
  "(polarity_rank (classify_polarity l) = 2)
     = (case l of None \<Rightarrow> True
        | Some t \<Rightarrow> map (\<lambda>c. if 65 \<le> c \<and> c \<le> 90 then c + 32 else c) t
                     \<notin> {lit ''yes'', lit ''true'', lit ''no'', lit ''false''})"
proof -
  have lo: "to_lower = (\<lambda>c. if 65 \<le> c \<and> c \<le> 90 then c + 32 else c)"
    by (rule ext) (simp add: to_lower_def)
  have ne: "lit ''no'' \<noteq> lit ''yes''" "lit ''no'' \<noteq> lit ''true''"
    "lit ''false'' \<noteq> lit ''yes''" "lit ''false'' \<noteq> lit ''true''"
    by (simp_all add: lit_eq_iff)
  show "(polarity_rank (classify_polarity l) = 0)
     = (case l of None \<Rightarrow> False
        | Some t \<Rightarrow> map (\<lambda>c. if 65 \<le> c \<and> c \<le> 90 then c + 32 else c) t \<in> {lit ''yes'', lit ''true''})"
    unfolding lo[symmetric] by (auto simp: classify_polarity_def split: option.splits)
  show "(polarity_rank (classify_polarity l) = 1)
     = (case l of None \<Rightarrow> False
        | Some t \<Rightarrow> map (\<lambda>c. if 65 \<le> c \<and> c \<le> 90 then c + 32 else c) t \<in> {lit ''no'', lit ''false''})"
    unfolding lo[symmetric] using ne by (auto simp: classify_polarity_def split: option.splits)
  show "(polarity_rank (classify_polarity l) = 2)
     = (case l of None \<Rightarrow> True
        | Some t \<Rightarrow> map (\<lambda>c. if 65 \<le> c \<and> c \<le> 90 then c + 32 else c) t
                     \<notin> {lit ''yes'', lit ''true'', lit ''no'', lit ''false''})"
    unfolding lo[symmetric] by (auto simp: classify_polarity_def split: option.splits)
qed

lemma ordered_out_edges_explicit:
  "ordered_out_edges g (node_id v)
     = filter (\<lambda>e. case edge_label e of None \<Rightarrow> False
                            | Some t \<Rightarrow> map (\<lambda>c. if 65 \<le> c \<and> c \<le> 90 then c + 32 else c) t \<in> {lit ''yes'', lit ''true''})
                   (filter (\<lambda>e. source e = node_id v) (g_edges g))
       @ filter (\<lambda>e. case edge_label e of None \<Rightarrow> False
                            | Some t \<Rightarrow> map (\<lambda>c. if 65 \<le> c \<and> c \<le> 90 then c + 32 else c) t \<in> {lit ''no'', lit ''false''})
                   (filter (\<lambda>e. source e = node_id v) (g_edges g))
       @ filter (\<lambda>e. case edge_label e of None \<Rightarrow> True
                            | Some t \<Rightarrow> map (\<lambda>c. if 65 \<le> c \<and> c \<le> 90 then c + 32 else c) t
                                         \<notin> {lit ''yes'', lit ''true'', lit ''no'', lit ''false''})
                   (filter (\<lambda>e. source e = node_id v) (g_edges g))"
proof -
  have "ordered_out_edges g (node_id v)
      = filter (\<lambda>e. polarity_rank (classify_polarity (edge_label e)) = 0) (out_edges g (node_id v))
        @ filter (\<lambda>e. polarity_rank (classify_polarity (edge_label e)) = 1) (out_edges g (node_id v))
        @ filter (\<lambda>e. polarity_rank (classify_polarity (edge_label e)) = 2) (out_edges g (node_id v))"
    unfolding ordered_out_edges_def
    by (rule sort_key_three) (simp add: polarity_rank_le)
  then show ?thesis
    unfolding polarity_rank_explicit out_edges_def .
qed

lemma find_node_id: "find_node g v = Some nd \<Longrightarrow> node_id nd = v \<and> nd \<in> set (g_nodes g)"
  unfolding find_node_def by (auto simp: find_Some_iff)

lemma traverse_props:
  "map fst (traverse g q vis n) = [n ..< n + length (traverse g q vis n)]
   \<and> (\<forall>p \<in> set (traverse g q vis n). snd p \<in> set (g_nodes g) \<and> node_id (snd p) \<notin> set vis)
   \<and> distinct (map (\<lambda>p. node_id (snd p)) (traverse g q vis n))"
proof (induction g q vis n rule: traverse.induct)
  case (1 g visited n)
  then show ?case by simp
next
  case (2 g v queue visited n)
  show ?case
  proof (cases "v \<in> set visited")
    case True
    then show ?thesis using 2(1) by simp
  next
    case False
    show ?thesis
    proof (cases "find_node g v")
      case None
      then show ?thesis using False 2(2) by simp
    next
      case (Some nd)
      let ?r = "traverse g (queue @ map target (ordered_out_edges g v)) (v # visited) (n + 1)"
      have ih: "map fst ?r = [n + 1 ..< n + 1 + length ?r]
        \<and> (\<forall>p \<in> set ?r. snd p \<in> set (g_nodes g) \<and> node_id (snd p) \<notin> set (v # visited))
        \<and> distinct (map (\<lambda>p. node_id (snd p)) ?r)"
        using 2(3)[OF False Some] .
      have t: "traverse g (v # queue) visited n = (n, nd) # ?r"
        using False Some by simp
      have nd: "node_id nd = v" "nd \<in> set (g_nodes g)"
        using find_node_id[OF Some] by simp_all
      have ih1: "map fst ?r = [n + 1 ..< n + 1 + length ?r]" using ih by blast
      have u: "[n ..< n + length ((n, nd) # ?r)] = n # [Suc n ..< n + length ((n, nd) # ?r)]"
        by (rule upt_conv_Cons) simp
      have a: "map fst ((n, nd) # ?r) = [n ..< n + length ((n, nd) # ?r)]"
        unfolding u using ih1 by (simp del: upt_Suc)
      have b: "\<forall>p \<in> set ((n, nd) # ?r). snd p \<in> set (g_nodes g) \<and> node_id (snd p) \<notin> set visited"
        using ih nd False by auto
      have c: "distinct (map (\<lambda>p. node_id (snd p)) ((n, nd) # ?r))"
        using ih nd by auto
      show ?thesis unfolding t using a b c by blast
    qed
  qed
qed

lemma emitted_props:
  "distinct (map (\<lambda>p. node_id (snd p)) (emitted g))
   \<and> map fst (emitted g) = [1 ..< Suc (length (emitted g))]
   \<and> (\<forall>p \<in> set (emitted g). snd p \<in> set (g_nodes g))"
proof (cases "start_node g")
  case None
  then show ?thesis by (simp add: emitted_def)
next
  case (Some s)
  then show ?thesis
    using traverse_props[of g "[node_id s]" "[]" 1] by (simp add: emitted_def)
qed

lemma decimal_digits: "\<forall>c \<in> set (decimal n). c \<noteq> 58"
proof (induction n rule: decimal.induct)
  case (1 n)
  show ?case
  proof (cases "n < 10")
    case True
    then show ?thesis by (subst decimal.simps) simp
  next
    case False
    have "n mod 10 < 10" by simp
    then have "48 + n mod 10 \<noteq> 58" by linarith
    then show ?thesis using 1[OF False] False by (subst decimal.simps) simp
  qed
qed

lemma step_line_marker:
  "takeWhile (\<lambda>c. c \<noteq> 58) (lit ''Step '' @ decimal n @ lit '': '' @ r) = lit ''Step '' @ decimal n"
proof -
  have a: "takeWhile (\<lambda>c. c \<noteq> 58) (decimal n @ lit '': '' @ r) = decimal n"
    using decimal_digits[of n] by (simp add: takeWhile_append2 lit_def)
  have "takeWhile (\<lambda>c. c \<noteq> 58) (lit ''Step '' @ (decimal n @ lit '': '' @ r))
      = lit ''Step '' @ takeWhile (\<lambda>c. c \<noteq> 58) (decimal n @ lit '': '' @ r)"
    by (simp add: lit_def)
  then show ?thesis using a by simp
qed

text \<open>
  C3: for a decision node that the walk emits as step \<open>n\<close>, the narrative is the lines
  of the nodes emitted before it, then its one step line, then one branch line for each
  of its outgoing edges and no other, then the lines of the nodes emitted after it. The
  branch lines come in the order: the edges labeled yes or true (in any case of the
  letters), then those labeled no or false, then the others and the unlabeled; within
  each group in the order of the graph. With exactly two outgoing edges labeled Yes and
  No, in either order, the node gives its step line, the Yes branch line and the No
  branch line. The lines of every other emitted node start with its step line, and a
  node that is no decision gives nothing else. A node is emitted once, the steps are
  numbered from 1, and every emitted node is a node of the graph. The view renders a
  branch line as an indented item with the bullet, and the step line with the marker
  \<open>Step n\<close>.
\<close>

theorem decision_branches_ordered:
  assumes "emitted g = pre @ (n, v) # post" and "node_class v = CDecision"
  shows "generate_narrative w g
          = concat (map (node_lines w g) pre)
            @ [(lit ''Step '' @ decimal n @ lit '': '' @ phrase w v)]
            @ map (\<lambda>e. [8627] @ lit '' '' @ branch_text w e)
                (filter (\<lambda>e. case edge_label e of None \<Rightarrow> False
                            | Some t \<Rightarrow> map (\<lambda>c. if 65 \<le> c \<and> c \<le> 90 then c + 32 else c) t \<in> {lit ''yes'', lit ''true''})
                   (filter (\<lambda>e. source e = node_id v) (g_edges g))
                 @ filter (\<lambda>e. case edge_label e of None \<Rightarrow> False
                            | Some t \<Rightarrow> map (\<lambda>c. if 65 \<le> c \<and> c \<le> 90 then c + 32 else c) t \<in> {lit ''no'', lit ''false''})
                   (filter (\<lambda>e. source e = node_id v) (g_edges g))
                 @ filter (\<lambda>e. case edge_label e of None \<Rightarrow> True
                            | Some t \<Rightarrow> map (\<lambda>c. if 65 \<le> c \<and> c \<le> 90 then c + 32 else c) t
                                         \<notin> {lit ''yes'', lit ''true'', lit ''no'', lit ''false''})
                   (filter (\<lambda>e. source e = node_id v) (g_edges g)))
            @ concat (map (node_lines w g) post)
       \<and> (\<forall>e1 e2. ((filter (\<lambda>e. source e = node_id v) (g_edges g)) = [e1, e2] \<or> (filter (\<lambda>e. source e = node_id v) (g_edges g)) = [e2, e1])
              \<and> edge_label e1 = Some (lit ''Yes'') \<and> edge_label e2 = Some (lit ''No'')
            \<longrightarrow> generate_narrative w g
                  = concat (map (node_lines w g) pre)
                    @ [(lit ''Step '' @ decimal n @ lit '': '' @ phrase w v),
                       [8627] @ lit '' '' @ branch_text w e1,
                       [8627] @ lit '' '' @ branch_text w e2]
                    @ concat (map (node_lines w g) post))
       \<and> (\<forall>p \<in> set pre \<union> set post.
           \<exists>es. node_lines w g p
                  = (lit ''Step '' @ decimal (fst p) @ lit '': '' @ phrase w (snd p))
                    # map (\<lambda>e. [8627] @ lit '' '' @ branch_text w e) es
                \<and> (node_class (snd p) \<noteq> CDecision \<longrightarrow> es = []))
       \<and> distinct (map (\<lambda>p. node_id (snd p)) (emitted g))
       \<and> map fst (emitted g) = [1 ..< Suc (length (emitted g))]
       \<and> (\<forall>p \<in> set (emitted g). snd p \<in> set (g_nodes g))
       \<and> (\<forall>e. narrative_item ([8627] @ lit '' '' @ branch_text w e)
              = Elem ''div'' (lit ''narrative-item indent-branch'')
                  [Elem ''span'' (lit ''step-marker'') [Text [8226]],
                   Elem ''span'' (lit ''step-content'')
                     [HighlightText (step_content ([8627] @ lit '' '' @ branch_text w e))]])
       \<and> (\<exists>cls. narrative_item (lit ''Step '' @ decimal n @ lit '': '' @ phrase w v)
              = Elem ''div'' cls
                  [Elem ''span'' (lit ''step-marker'') [Text (lit ''Step '' @ decimal n)],
                   Elem ''span'' (lit ''step-content'')
                     [HighlightText (step_content (lit ''Step '' @ decimal n @ lit '': '' @ phrase w v))]])"
proof -
  have bl: "branch_line w = (\<lambda>e. [8627] @ lit '' '' @ branch_text w e)"
    by (rule ext) (simp add: branch_line_def branch_arrow_def)
  have lines: "node_lines w g (n, v)
      = (lit ''Step '' @ decimal n @ lit '': '' @ phrase w v) # map (branch_line w) (ordered_out_edges g (node_id v))"
    using assms(2) by (simp add: node_lines_def step_line_def)
  have split: "generate_narrative w g
      = concat (map (node_lines w g) pre) @ node_lines w g (n, v) @ concat (map (node_lines w g) post)"
    unfolding generate_narrative_def assms(1) by simp
  have s1: "generate_narrative w g
          = concat (map (node_lines w g) pre)
            @ [(lit ''Step '' @ decimal n @ lit '': '' @ phrase w v)]
            @ map (\<lambda>e. [8627] @ lit '' '' @ branch_text w e)
                (filter (\<lambda>e. case edge_label e of None \<Rightarrow> False
                            | Some t \<Rightarrow> map (\<lambda>c. if 65 \<le> c \<and> c \<le> 90 then c + 32 else c) t \<in> {lit ''yes'', lit ''true''})
                   (filter (\<lambda>e. source e = node_id v) (g_edges g))
                 @ filter (\<lambda>e. case edge_label e of None \<Rightarrow> False
                            | Some t \<Rightarrow> map (\<lambda>c. if 65 \<le> c \<and> c \<le> 90 then c + 32 else c) t \<in> {lit ''no'', lit ''false''})
                   (filter (\<lambda>e. source e = node_id v) (g_edges g))
                 @ filter (\<lambda>e. case edge_label e of None \<Rightarrow> True
                            | Some t \<Rightarrow> map (\<lambda>c. if 65 \<le> c \<and> c \<le> 90 then c + 32 else c) t
                                         \<notin> {lit ''yes'', lit ''true'', lit ''no'', lit ''false''})
                   (filter (\<lambda>e. source e = node_id v) (g_edges g)))
            @ concat (map (node_lines w g) post)"
    unfolding split lines bl ordered_out_edges_explicit by simp
  have s2: "(\<forall>e1 e2. ((filter (\<lambda>e. source e = node_id v) (g_edges g)) = [e1, e2] \<or> (filter (\<lambda>e. source e = node_id v) (g_edges g)) = [e2, e1])
              \<and> edge_label e1 = Some (lit ''Yes'') \<and> edge_label e2 = Some (lit ''No'')
            \<longrightarrow> generate_narrative w g
                  = concat (map (node_lines w g) pre)
                    @ [(lit ''Step '' @ decimal n @ lit '': '' @ phrase w v),
                       [8627] @ lit '' '' @ branch_text w e1,
                       [8627] @ lit '' '' @ branch_text w e2]
                    @ concat (map (node_lines w g) post))"
  proof (intro allI impI)
    fix e1 e2
    assume h: "((filter (\<lambda>e. source e = node_id v) (g_edges g)) = [e1, e2] \<or> (filter (\<lambda>e. source e = node_id v) (g_edges g)) = [e2, e1])
              \<and> edge_label e1 = Some (lit ''Yes'') \<and> edge_label e2 = Some (lit ''No'')"
    have y: "(case edge_label e1 of None \<Rightarrow> False
              | Some t \<Rightarrow> map (\<lambda>c. if 65 \<le> c \<and> c \<le> 90 then c + 32 else c) t \<in> {lit ''yes'', lit ''true''})"
      "\<not> (case edge_label e1 of None \<Rightarrow> False
              | Some t \<Rightarrow> map (\<lambda>c. if 65 \<le> c \<and> c \<le> 90 then c + 32 else c) t \<in> {lit ''no'', lit ''false''})"
      "\<not> (case edge_label e1 of None \<Rightarrow> True
              | Some t \<Rightarrow> map (\<lambda>c. if 65 \<le> c \<and> c \<le> 90 then c + 32 else c) t
                     \<notin> {lit ''yes'', lit ''true'', lit ''no'', lit ''false''})"
      using h by (simp_all add: lit_def)
    have no: "\<not> (case edge_label e2 of None \<Rightarrow> False
              | Some t \<Rightarrow> map (\<lambda>c. if 65 \<le> c \<and> c \<le> 90 then c + 32 else c) t \<in> {lit ''yes'', lit ''true''})"
      "(case edge_label e2 of None \<Rightarrow> False
              | Some t \<Rightarrow> map (\<lambda>c. if 65 \<le> c \<and> c \<le> 90 then c + 32 else c) t \<in> {lit ''no'', lit ''false''})"
      "\<not> (case edge_label e2 of None \<Rightarrow> True
              | Some t \<Rightarrow> map (\<lambda>c. if 65 \<le> c \<and> c \<le> 90 then c + 32 else c) t
                     \<notin> {lit ''yes'', lit ''true'', lit ''no'', lit ''false''})"
      using h by (simp_all add: lit_def)
    have "ordered_out_edges g (node_id v) = [e1, e2]"
      unfolding ordered_out_edges_explicit
      apply (rule three_filter_two
          [where P = "(\<lambda>e. case edge_label e of None \<Rightarrow> False
                            | Some t \<Rightarrow> map (\<lambda>c. if 65 \<le> c \<and> c \<le> 90 then c + 32 else c) t \<in> {lit ''yes'', lit ''true''})"
             and Q = "(\<lambda>e. case edge_label e of None \<Rightarrow> False
                            | Some t \<Rightarrow> map (\<lambda>c. if 65 \<le> c \<and> c \<le> 90 then c + 32 else c) t \<in> {lit ''no'', lit ''false''})"
             and R = "(\<lambda>e. case edge_label e of None \<Rightarrow> True
                            | Some t \<Rightarrow> map (\<lambda>c. if 65 \<le> c \<and> c \<le> 90 then c + 32 else c) t
                                         \<notin> {lit ''yes'', lit ''true'', lit ''no'', lit ''false''})"])
      using h y no by simp_all
    then show "generate_narrative w g
                  = concat (map (node_lines w g) pre)
                    @ [(lit ''Step '' @ decimal n @ lit '': '' @ phrase w v),
                       [8627] @ lit '' '' @ branch_text w e1,
                       [8627] @ lit '' '' @ branch_text w e2]
                    @ concat (map (node_lines w g) post)"
      unfolding split lines bl by simp
  qed
  have s3: "(\<forall>p \<in> set pre \<union> set post.
           \<exists>es. node_lines w g p
                  = (lit ''Step '' @ decimal (fst p) @ lit '': '' @ phrase w (snd p))
                    # map (\<lambda>e. [8627] @ lit '' '' @ branch_text w e) es
                \<and> (node_class (snd p) \<noteq> CDecision \<longrightarrow> es = []))"
  proof
    fix p
    assume "p \<in> set pre \<union> set post"
    have "node_lines w g p
                  = (lit ''Step '' @ decimal (fst p) @ lit '': '' @ phrase w (snd p))
                    # map (\<lambda>e. [8627] @ lit '' '' @ branch_text w e)
                        (if node_class (snd p) = CDecision
                         then ordered_out_edges g (node_id (snd p)) else [])"
      unfolding bl[symmetric] by (simp add: node_lines_def step_line_def)
    then show "\<exists>es. node_lines w g p
                  = (lit ''Step '' @ decimal (fst p) @ lit '': '' @ phrase w (snd p))
                    # map (\<lambda>e. [8627] @ lit '' '' @ branch_text w e) es
                \<and> (node_class (snd p) \<noteq> CDecision \<longrightarrow> es = [])"
      by (intro exI[of _ "if node_class (snd p) = CDecision
                         then ordered_out_edges g (node_id (snd p)) else []"]) simp
  qed
  have s4: "distinct (map (\<lambda>p. node_id (snd p)) (emitted g))
       \<and> map fst (emitted g) = [1 ..< Suc (length (emitted g))]
       \<and> (\<forall>p \<in> set (emitted g). snd p \<in> set (g_nodes g))"
    by (rule emitted_props)
  have s5: "(\<forall>e. narrative_item ([8627] @ lit '' '' @ branch_text w e)
              = Elem ''div'' (lit ''narrative-item indent-branch'')
                  [Elem ''span'' (lit ''step-marker'') [Text [8226]],
                   Elem ''span'' (lit ''step-content'')
                     [HighlightText (step_content ([8627] @ lit '' '' @ branch_text w e))]])"
  proof
    fix e
    have a: "\<exists>a b. [8627] @ lit '' '' @ branch_text w e = a @ [8627] @ b"
      by (intro exI[of _ "[]"] exI[of _ "lit '' '' @ branch_text w e"]) simp
    have b: "\<not> (\<exists>r. [8627] @ lit '' '' @ branch_text w e = lit ''Step'' @ r)"
      by (simp add: lit_def)
    show "narrative_item ([8627] @ lit '' '' @ branch_text w e)
              = Elem ''div'' (lit ''narrative-item indent-branch'')
                  [Elem ''span'' (lit ''step-marker'') [Text [8226]],
                   Elem ''span'' (lit ''step-content'')
                     [HighlightText (step_content ([8627] @ lit '' '' @ branch_text w e))]]"
      unfolding narrative_item_explicit[of "[8627] @ lit '' '' @ branch_text w e"]
      using a b by (simp add: lit_append[symmetric])
  qed
  have s6: "(\<exists>cls. narrative_item (lit ''Step '' @ decimal n @ lit '': '' @ phrase w v)
              = Elem ''div'' cls
                  [Elem ''span'' (lit ''step-marker'') [Text (lit ''Step '' @ decimal n)],
                   Elem ''span'' (lit ''step-content'')
                     [HighlightText (step_content (lit ''Step '' @ decimal n @ lit '': '' @ phrase w v))]])"
  proof -
    have a: "\<exists>r. (lit ''Step '' @ decimal n @ lit '': '' @ phrase w v) = lit ''Step'' @ r"
      by (intro exI[of _ "lit '' '' @ decimal n @ lit '': '' @ phrase w v"]) (simp add: lit_def)
    show ?thesis
      unfolding narrative_item_explicit[of "(lit ''Step '' @ decimal n @ lit '': '' @ phrase w v)"]
      using a step_line_marker[of n "phrase w v"] by simp
  qed
  show ?thesis by (intro conjI) (rule s1 s2 s3 conjunct1[OF s4] conjunct1[OF conjunct2[OF s4]]
      conjunct2[OF conjunct2[OF s4]] s5 s6)+
qed


lemmas narrative_eval =
  emitted_def start_node_def find_node_def ordered_out_edges_def out_edges_def
  classify_polarity_def to_lower_def labelled_node_def lit_def

lemma emitted_review_graph:
  "emitted review_graph =
     [(1, labelled_node 0 CStart ''Start''), (2, labelled_node 1 CDecision ''Approved?''),
      (3, labelled_node 2 CEnd ''End''), (4, labelled_node 3 CProcess ''Fix'')]"
  by (simp add: narrative_eval review_graph_def)

lemma emitted_polarity_graph:
  "emitted polarity_graph =
     [(1, labelled_node 0 CStart ''Start''), (2, labelled_node 1 CDecision ''Valid?''),
      (3, labelled_node 2 CProcess ''A''), (4, labelled_node 3 CEnd ''End'')]"
  by (simp add: narrative_eval polarity_graph_def)

text \<open>The scenario of section 8: three nodes in a line give three linear steps.\<close>

lemma narrative_linear_graph:
  "generate_narrative label_wording linear_graph =
     [lit ''Step 1: Start'', lit ''Step 2: Process A'', lit ''Step 3: End'']"
  by (simp add: generate_narrative_def emitted_def start_node_def find_node_def
      ordered_out_edges_def out_edges_def node_lines_def step_line_def label_wording_def
      decimal.simps labelled_node_def linear_graph_def lit_def)

text \<open>
  C3 at a graph whose decision node lists its No edge before its Yes edge, and at a
  decision node with six outgoing edges.
\<close>

theorem decision_branches_ordered_witness:
  "generate_narrative label_wording review_graph =
     [lit ''Step 1: Start'', lit ''Step 2: Approved?'', [8627] @ lit '' Yes'',
      [8627] @ lit '' No'', lit ''Step 3: End'', lit ''Step 4: Fix'']
   \<and> generate_narrative label_wording polarity_graph =
     [lit ''Step 1: Start'', lit ''Step 2: Valid?'', [8627] @ lit '' TRUE'',
      [8627] @ lit '' Yes'', [8627] @ lit '' No'', [8627] @ lit '' false'',
      [8627] @ lit '' '', [8627] @ lit '' Maybe'', lit ''Step 3: A'', lit ''Step 4: End'']"
proof -
  have e1: "emitted review_graph
      = [(1, labelled_node 0 CStart ''Start'')] @ (2, labelled_node 1 CDecision ''Approved?'')
        # [(3, labelled_node 2 CEnd ''End''), (4, labelled_node 3 CProcess ''Fix'')]"
    by (simp add: emitted_review_graph)
  have e2: "emitted polarity_graph
      = [(1, labelled_node 0 CStart ''Start'')] @ (2, labelled_node 1 CDecision ''Valid?'')
        # [(3, labelled_node 2 CProcess ''A''), (4, labelled_node 3 CEnd ''End'')]"
    by (simp add: emitted_polarity_graph)
  have c1: "node_class (labelled_node 1 CDecision ''Approved?'') = CDecision"
    by (simp add: labelled_node_def)
  have c2: "node_class (labelled_node 1 CDecision ''Valid?'') = CDecision"
    by (simp add: labelled_node_def)
  have n1: "generate_narrative label_wording review_graph =
     [lit ''Step 1: Start'', lit ''Step 2: Approved?'', [8627] @ lit '' Yes'',
      [8627] @ lit '' No'', lit ''Step 3: End'', lit ''Step 4: Fix'']"
    using conjunct1 [OF decision_branches_ordered [OF e1 c1, of label_wording]]
    by (simp add: node_lines_def step_line_def label_wording_def decimal.simps
        labelled_node_def review_graph_def lit_def)
  have n2: "generate_narrative label_wording polarity_graph =
     [lit ''Step 1: Start'', lit ''Step 2: Valid?'', [8627] @ lit '' TRUE'',
      [8627] @ lit '' Yes'', [8627] @ lit '' No'', [8627] @ lit '' false'',
      [8627] @ lit '' '', [8627] @ lit '' Maybe'', lit ''Step 3: A'', lit ''Step 4: End'']"
    using conjunct1 [OF decision_branches_ordered [OF e2 c2, of label_wording]]
    by (simp add: node_lines_def step_line_def label_wording_def decimal.simps
        labelled_node_def polarity_graph_def lit_def)
  show ?thesis using n1 n2 by (intro conjI)
qed

end
